theory Spec2Isabelle
  imports Main
begin

section \<open>Python strings and the library functions the program calls\<close>

text \<open>
  A Python \<open>str\<close> is modelled by its UTF-8 encoding, a \<open>string\<close> (list of 8-bit
  characters). Every operation the program applies to a string (emptiness test,
  concatenation, splitting at the ASCII space, searching for \<open>/\<close> and \<open>.\<close>, CSV quoting)
  acts on ASCII characters only and therefore agrees on code points and on UTF-8 bytes.
\<close>

subsection \<open>\<open>str.split(sep)\<close> and indexing\<close>

datatype exn = OSError | ValueError | IndexError

fun split_on :: "char \<Rightarrow> string \<Rightarrow> string list" where
  "split_on sep [] = [[]]"
| "split_on sep (c # cs) =
     (if c = sep then [] # split_on sep cs
      else (case split_on sep cs of
              [] \<Rightarrow> [[c]]
            | w # ws \<Rightarrow> (c # w) # ws))"

definition index0 :: "'a list \<Rightarrow> exn + 'a" where
  "index0 xs = (case xs of [] \<Rightarrow> Inl IndexError | x # _ \<Rightarrow> Inr x)"

subsection \<open>\<open>datetime\<close> and \<open>strftime\<close>\<close>

record datetime =
  year :: nat
  month :: nat
  day :: nat
  hour :: nat
  minute :: nat
  second :: nat
  microsecond :: nat

definition is_leap :: "nat \<Rightarrow> bool" where
  "is_leap y = (y mod 4 = 0 \<and> (y mod 100 \<noteq> 0 \<or> y mod 400 = 0))"

definition days_in_month :: "nat \<Rightarrow> nat \<Rightarrow> nat" where
  "days_in_month y m =
     (if m = 2 then (if is_leap y then 29 else 28)
      else if m = 4 \<or> m = 6 \<or> m = 9 \<or> m = 11 then 30 else 31)"

text \<open>The values a Python \<open>datetime\<close> object can hold (\<open>MINYEAR = 1\<close>, \<open>MAXYEAR = 9999\<close>).\<close>

definition valid_datetime :: "datetime \<Rightarrow> bool" where
  "valid_datetime t =
     (1 \<le> year t \<and> year t \<le> 9999 \<and> 1 \<le> month t \<and> month t \<le> 12 \<and>
      1 \<le> day t \<and> day t \<le> days_in_month (year t) (month t) \<and>
      hour t < 24 \<and> minute t < 60 \<and> second t < 60 \<and> microsecond t < 1000000)"

definition digit_char :: "nat \<Rightarrow> char" where
  "digit_char d = ''0123456789'' ! d"

fun dec :: "nat \<Rightarrow> string" where
  "dec n = (if n < 10 then [digit_char n] else dec (n div 10) @ [digit_char (n mod 10)])"

declare dec.simps [simp del]

definition zpad :: "nat \<Rightarrow> nat \<Rightarrow> string" where
  "zpad w n = replicate (w - length (dec n)) CHR ''0'' @ dec n"

text \<open>
  The directives of \<open>strftime\<close> that the program uses, as the C library of the platform
  formats them: \<open>%Y\<close> is the year in decimal with no padding (\<open>999\<close> for the year 999),
  the others are zero-padded to two digits. The microsecond of the time takes no part
  in any of them.
\<close>

definition directive :: "datetime \<Rightarrow> char \<Rightarrow> string" where
  "directive t d =
     (if d = CHR ''Y'' then dec (year t)
      else if d = CHR ''m'' then zpad 2 (month t)
      else if d = CHR ''d'' then zpad 2 (day t)
      else if d = CHR ''H'' then zpad 2 (hour t)
      else if d = CHR ''M'' then zpad 2 (minute t)
      else if d = CHR ''S'' then zpad 2 (second t)
      else if d = CHR ''%'' then ''%''
      else [CHR ''%'', d])"

fun strftime :: "datetime \<Rightarrow> string \<Rightarrow> string" where
  "strftime t [] = []"
| "strftime t [c] = [c]"
| "strftime t (c # d # cs) =
     (if c = CHR ''%'' then directive t d @ strftime t cs
      else c # strftime t (d # cs))"

subsection \<open>\<open>os.path.splitext\<close> and \<open>os.path.join\<close> (POSIX)\<close>

definition rfind :: "char \<Rightarrow> string \<Rightarrow> int" where
  "rfind c s =
     (if c \<in> set s then int (length s) - 1 - int (length (takeWhile (\<lambda>x. x \<noteq> c) (rev s)))
      else - 1)"

text \<open>
  The loop of \<open>posixpath._splitext\<close> that skips the leading dots of the last path
  component: it returns the split at \<open>dotIndex\<close> as soon as it meets a character that is
  not a dot, and nothing when it reaches \<open>dotIndex\<close>.
\<close>

function splitext_loop :: "string \<Rightarrow> nat \<Rightarrow> nat \<Rightarrow> (string \<times> string) option" where
  "splitext_loop p dotIndex filenameIndex =
     (if filenameIndex < dotIndex then
        (if [p ! filenameIndex] \<noteq> ''.'' then Some (take dotIndex p, drop dotIndex p)
         else splitext_loop p dotIndex (filenameIndex + 1))
      else None)"
  by pat_completeness auto
termination
  by (relation "measure (\<lambda>(p, dotIndex, filenameIndex). dotIndex - filenameIndex)") auto

declare splitext_loop.simps [simp del]

definition splitext :: "string \<Rightarrow> string \<times> string" where
  "splitext p =
     (let sepIndex = rfind CHR ''/'' p;
          dotIndex = rfind CHR ''.'' p
      in if dotIndex > sepIndex then
           (case splitext_loop p (nat dotIndex) (nat (sepIndex + 1)) of
              Some r \<Rightarrow> r
            | None \<Rightarrow> (p, []))
         else (p, []))"

definition path_join :: "string \<Rightarrow> string \<Rightarrow> string" where
  "path_join a b =
     (if b \<noteq> [] \<and> hd b = CHR ''/'' then b
      else if a = [] \<or> last a = CHR ''/'' then a @ b
      else a @ ''/'' @ b)"

subsection \<open>The CSV text that \<open>DataFrame.to_csv\<close> writes\<close>

text \<open>
  \<open>to_csv\<close> writes through Python's \<open>csv\<close> writer with the default dialect: comma
  delimiter, quote character \<open>0x22\<close> doubled inside a quoted field, line terminator
  \<open>0x0A\<close> and minimal quoting: a field is quoted when it holds the delimiter, the quote
  character or a character of the line terminator. A carriage return (\<open>0x0D\<close>) alone
  does not make the writer quote a field. A row that consists of one empty field is
  written as a pair of quotes.
\<close>

definition special_char :: "char \<Rightarrow> bool" where
  "special_char c = (c = CHR '','' \<or> c = CHR 0x22 \<or> c = CHR 0x0A)"

definition needs_quote :: "string \<Rightarrow> bool" where
  "needs_quote f = list_ex special_char f"

fun double_quotes :: "string \<Rightarrow> string" where
  "double_quotes [] = []"
| "double_quotes (c # cs) = (if c = CHR 0x22 then [c, c] else [c]) @ double_quotes cs"

definition csv_field :: "string \<Rightarrow> string" where
  "csv_field f = (if needs_quote f then [CHR 0x22] @ double_quotes f @ [CHR 0x22] else f)"

fun join_fields :: "string list \<Rightarrow> string" where
  "join_fields [] = []"
| "join_fields [f] = f"
| "join_fields (f # g # fs) = f @ [CHR '',''] @ join_fields (g # fs)"

definition csv_row :: "string list \<Rightarrow> string" where
  "csv_row fs =
     (if fs = [[]] then [CHR 0x22, CHR 0x22] else join_fields (map csv_field fs)) @ [CHR 0x0A]"

record dataframe =
  columns :: "string list"
  rows :: "string list list"

text \<open>\<open>pd.DataFrame(columns=cols)\<close>: the columns and no row.\<close>

definition DataFrame_columns :: "string list \<Rightarrow> dataframe" where
  "DataFrame_columns cols = \<lparr>columns = cols, rows = []\<rparr>"

text \<open>
  \<open>pd.DataFrame([d])\<close> for one dictionary \<open>d\<close>, which is an association list here since
  a Python dictionary keeps the order in which its keys were inserted: the columns are
  the keys and the single row holds the values, both in that order.
\<close>

definition DataFrame_record :: "(string \<times> string) list \<Rightarrow> dataframe" where
  "DataFrame_record d = \<lparr>columns = map fst d, rows = [map snd d]\<rparr>"

definition to_csv_text :: "dataframe \<Rightarrow> bool \<Rightarrow> string" where
  "to_csv_text df header =
     (if header then csv_row (columns df) else []) @ concat (map csv_row (rows df))"

subsection \<open>The file system\<close>

text \<open>
  A path names a directory or a file with its content. Each library call that touches
  the file system either completes or raises and leaves the state as it was; besides
  the failures that the state and the path itself cause, the environment may make any
  call fail (disk full, permissions), which a \<open>faults\<close> record fixes for one run of the
  program.
\<close>

datatype node = Dir | File string

type_synonym fs = "string \<rightharpoonup> node"

record faults =
  makedirs_fails :: bool
  to_csv_w_fails :: bool
  open_fails :: bool
  write_fails :: bool
  to_csv_a_fails :: bool

definition no_faults :: faults where
  "no_faults = \<lparr>makedirs_fails = False, to_csv_w_fails = False, open_fails = False,
                 write_fails = False, to_csv_a_fails = False\<rparr>"

definition os_path_exists :: "fs \<Rightarrow> string \<Rightarrow> bool" where
  "os_path_exists s p = (s p \<noteq> None)"

definition os_makedirs :: "faults \<Rightarrow> string \<Rightarrow> fs \<Rightarrow> (exn + unit) \<times> fs" where
  "os_makedirs flt p s =
     (if makedirs_fails flt \<or> s p \<noteq> None then (Inl OSError, s)
      else (Inr (), s(p \<mapsto> Dir)))"

datatype mode = W | A

definition file_content :: "fs \<Rightarrow> string \<Rightarrow> string" where
  "file_content s p = (case s p of Some (File c) \<Rightarrow> c | _ \<Rightarrow> [])"

definition to_csv :: "faults \<Rightarrow> dataframe \<Rightarrow> string \<Rightarrow> mode \<Rightarrow> bool \<Rightarrow> fs \<Rightarrow> (exn + unit) \<times> fs" where
  "to_csv flt df path m header s =
     (case m of
        W \<Rightarrow> (if to_csv_w_fails flt \<or> s path = Some Dir then (Inl OSError, s)
               else (Inr (), s(path \<mapsto> File (to_csv_text df header))))
      | A \<Rightarrow> (if to_csv_a_fails flt \<or> s path = Some Dir then (Inl OSError, s)
               else (Inr (), s(path \<mapsto> File (file_content s path @ to_csv_text df header)))))"

text \<open>The directory that must exist for a file to be created at the path.\<close>

definition parent_ok :: "fs \<Rightarrow> string \<Rightarrow> bool" where
  "parent_ok s p =
     (let i = rfind CHR ''/'' p in if i < 0 then True else s (take (nat i) p) = Some Dir)"

text \<open>
  A component of a path (the part between two separators) may have at most \<open>NAME_MAX\<close>
  bytes; the system refuses a longer one with \<open>ENAMETOOLONG\<close>.
\<close>

definition NAME_MAX :: nat where
  "NAME_MAX = 255"

definition name_too_long :: "string \<Rightarrow> bool" where
  "name_too_long p = list_ex (\<lambda>c. NAME_MAX < length c) (split_on CHR ''/'' p)"

text \<open>
  \<open>open(path, "wb")\<close> creates the file or truncates it. A path that holds a null
  character is refused with \<open>ValueError\<close> before the system is asked; the system
  refuses with \<open>OSError\<close> a path with a component that is too long, a path whose
  directory is missing and the path of a directory.
\<close>

definition open_wb :: "faults \<Rightarrow> string \<Rightarrow> fs \<Rightarrow> (exn + unit) \<times> fs" where
  "open_wb flt path s =
     (if CHR 0x00 \<in> set path then (Inl ValueError, s)
      else if open_fails flt \<or> name_too_long path \<or> \<not> parent_ok s path \<or> s path = Some Dir
      then (Inl OSError, s)
      else (Inr (), s(path \<mapsto> File [])))"

definition file_write :: "faults \<Rightarrow> string \<Rightarrow> string \<Rightarrow> fs \<Rightarrow> (exn + unit) \<times> fs" where
  "file_write flt path bytes s =
     (if write_fails flt then (Inl OSError, s)
      else (Inr (), s(path \<mapsto> File (file_content s path @ bytes))))"

section \<open>The hazard reporting program\<close>

subsection \<open>Configuration and data\<close>

definition LOGO_PATH :: string where
  "LOGO_PATH = ''fmf_logo.png''"

definition UPLOADS_DIR :: string where
  "UPLOADS_DIR = ''uploads''"

definition REPORTS_CSV :: string where
  "REPORTS_CSV = ''hazard_reports.csv''"

definition COLUMNS :: "string list" where
  "COLUMNS = [''ReportID'', ''Timestamp'', ''EmployeeID'', ''Entity'',
              ''SpecificArea'', ''Urgency'', ''Description'', ''ImagePath'']"

text \<open>The object that \<open>st.file_uploader\<close> returns: the original file name and the bytes.\<close>

record UploadedFile =
  name :: string
  getbuffer :: string

text \<open>The values of the form's widgets in one run of the script.\<close>

record form_input =
  employee_id :: string
  entity :: string
  specific_area :: string
  description :: string
  urgency :: string
  uploaded_photo :: "UploadedFile option"
  submitted :: bool

text \<open>
  The three options of the urgency select box; each starts with an emoji (given by its
  UTF-8 bytes: a red, a yellow and a green circle), followed by a space and a label.
\<close>

definition RED :: string where
  "RED = [CHR 0xF0, CHR 0x9F, CHR 0x94, CHR 0xB4]"

definition YELLOW :: string where
  "YELLOW = [CHR 0xF0, CHR 0x9F, CHR 0x9F, CHR 0xA1]"

definition GREEN :: string where
  "GREEN = [CHR 0xF0, CHR 0x9F, CHR 0x9F, CHR 0xA2]"

definition URGENCY_OPTIONS :: "string list" where
  "URGENCY_OPTIONS =
     [RED @ '' Immediate Danger - Stop Work Required'',
      YELLOW @ '' Needs Attention - Potential for Harm'',
      GREEN @ '' General Improvement / Observation'']"

text \<open>What the script shows to the user: \<open>st.error\<close>, \<open>st.warning\<close>, \<open>st.success\<close>, \<open>st.info\<close>.\<close>

datatype st_msg = StError string | StWarning string | StSuccess string | StInfo string

definition str_exn :: "exn \<Rightarrow> string" where
  "str_exn e =
     (case e of
        OSError \<Rightarrow> ''OSError''
      | ValueError \<Rightarrow> ''embedded null byte''
      | IndexError \<Rightarrow> ''list index out of range'')"

subsection \<open>\<open>initialize_storage\<close>\<close>

definition initialize_storage :: "faults \<Rightarrow> fs \<Rightarrow> (exn + unit) \<times> fs" where
  "initialize_storage flt s =
     (case (if \<not> os_path_exists s UPLOADS_DIR then os_makedirs flt UPLOADS_DIR s
            else (Inr (), s)) of
        (Inl e, s1) \<Rightarrow> (Inl e, s1)
      | (Inr _, s1) \<Rightarrow>
          (if \<not> os_path_exists s1 REPORTS_CSV then
             to_csv flt (DataFrame_columns COLUMNS) REPORTS_CSV W True s1
           else (Inr (), s1)))"

subsection \<open>\<open>save_report\<close>\<close>

text \<open>
  The result is the list of messages shown, the Boolean the function returns and the
  file system after the call; the \<open>except\<close> branch catches every exception of the append.
\<close>

definition save_report :: "faults \<Rightarrow> (string \<times> string) list \<Rightarrow> fs \<Rightarrow> st_msg list \<times> bool \<times> fs" where
  "save_report flt report_data s =
     (case to_csv flt (DataFrame_record report_data) REPORTS_CSV A False s of
        (Inr _, s1) \<Rightarrow> ([], True, s1)
      | (Inl e, s1) \<Rightarrow> ([StError (''Error saving report: '' @ str_exn e)], False, s1))"

subsection \<open>\<open>save_image\<close>\<close>

definition save_image :: "faults \<Rightarrow> UploadedFile option \<Rightarrow> string \<Rightarrow> fs \<Rightarrow> (exn + string option) \<times> fs" where
  "save_image flt uploaded_file report_id s =
     (case uploaded_file of
        Some uf \<Rightarrow>
          (let file_extension = snd (splitext (name uf));
               image_filename = report_id @ file_extension;
               image_path = path_join UPLOADS_DIR image_filename
           in case open_wb flt image_path s of
                (Inl e, s1) \<Rightarrow> (Inl e, s1)
              | (Inr _, s1) \<Rightarrow>
                  (case file_write flt image_path (getbuffer uf) s1 of
                     (Inl e, s2) \<Rightarrow> (Inl e, s2)
                   | (Inr _, s2) \<Rightarrow> (Inr (Some image_path), s2)))
      | None \<Rightarrow> (Inr None, s))"

subsection \<open>\<open>main\<close>\<close>

definition VALIDATION_MESSAGE :: string where
  "VALIDATION_MESSAGE =
     ''Please fill in both the '' @ [CHR 0x27] @ ''Specific Area'' @ [CHR 0x27] @ '' and '' @
     [CHR 0x27] @ ''Hazard Description'' @ [CHR 0x27] @ '' fields.''"

definition SUCCESS_MESSAGE :: string where
  "SUCCESS_MESSAGE =
     [CHR 0xE2, CHR 0x9C, CHR 0x85] @ '' Thank you! Your report has been submitted successfully.''"

definition FAILURE_MESSAGE :: string where
  "FAILURE_MESSAGE = ''Failed to save the report. Please contact the OHS department directly.''"

definition report_id_of :: "datetime \<Rightarrow> string" where
  "report_id_of timestamp = strftime timestamp ''HAZ%Y%m%d-%H%M%S''"

text \<open>The dictionary \<open>report_data\<close>, with its keys in the order of the source.\<close>

definition report_data_of ::
  "datetime \<Rightarrow> string \<Rightarrow> form_input \<Rightarrow> string \<Rightarrow> string option \<Rightarrow> (string \<times> string) list" where
  "report_data_of timestamp report_id form tag image_path =
     [(''ReportID'', report_id),
      (''Timestamp'', strftime timestamp ''%Y-%m-%d %H:%M:%S''),
      (''EmployeeID'', if employee_id form \<noteq> [] then employee_id form else ''Anonymous''),
      (''Entity'', entity form),
      (''SpecificArea'', specific_area form),
      (''Urgency'', tag),
      (''Description'', description form),
      (''ImagePath'', case image_path of
                        Some p \<Rightarrow> (if p \<noteq> [] then p else ''N/A'')
                      | None \<Rightarrow> ''N/A'')]"

text \<open>
  The block of \<open>main\<close> that handles a submitted form (\<open>if submitted: ...\<close>). The time
  \<open>now\<close> is what \<open>datetime.now()\<close> returns in this run. An exception that nothing catches
  (from \<open>save_image\<close>, or from indexing the result of \<open>split\<close>) ends the run: the result
  is then \<open>Inl\<close> of it, with the messages shown so far.
\<close>

definition handle_submission ::
  "faults \<Rightarrow> datetime \<Rightarrow> form_input \<Rightarrow> fs \<Rightarrow> (exn + unit) \<times> st_msg list \<times> fs" where
  "handle_submission flt now form s =
     (if submitted form then
        (if description form = [] \<or> specific_area form = [] then
           (Inr (), [StError VALIDATION_MESSAGE], s)
         else
           (let timestamp = now;
                report_id = report_id_of timestamp
            in case save_image flt (uploaded_photo form) report_id s of
                 (Inl e, s1) \<Rightarrow> (Inl e, [], s1)
               | (Inr image_path, s1) \<Rightarrow>
                   (case index0 (split_on CHR '' '' (urgency form)) of
                      Inl e \<Rightarrow> (Inl e, [], s1)
                    | Inr tag \<Rightarrow>
                        (let report_data = report_data_of timestamp report_id form tag image_path
                         in case save_report flt report_data s1 of
                              (msgs, True, s2) \<Rightarrow>
                                (Inr (), msgs @ [StSuccess SUCCESS_MESSAGE,
                                   StInfo (''Your Report ID is: **'' @ report_id @ ''**'')], s2)
                            | (msgs, False, s2) \<Rightarrow>
                                (Inr (), msgs @ [StError FAILURE_MESSAGE], s2)))))
      else (Inr (), [], s))"

definition logo_messages :: "fs \<Rightarrow> st_msg list" where
  "logo_messages s =
     (if os_path_exists s LOGO_PATH then []
      else [StWarning (''Logo not found at '' @ [CHR 0x27] @ LOGO_PATH @ [CHR 0x27] @
                       ''. Please update the path.'')])"

definition main :: "faults \<Rightarrow> datetime \<Rightarrow> form_input \<Rightarrow> fs \<Rightarrow> (exn + unit) \<times> st_msg list \<times> fs" where
  "main flt now form s =
     (case initialize_storage flt s of
        (Inl e, s1) \<Rightarrow> (Inl e, [], s1)
      | (Inr _, s1) \<Rightarrow>
          (case handle_submission flt now form s1 of
             (r, msgs, s2) \<Rightarrow> (r, logo_messages s1 @ msgs, s2)))"

section \<open>Vocabulary of the properties\<close>

subsection \<open>Results of a run\<close>

definition result_of :: "'a \<times> 'b \<times> 'c \<Rightarrow> 'a" where
  "result_of x = fst x"

definition messages_of :: "'a \<times> 'b \<times> 'c \<Rightarrow> 'b" where
  "messages_of x = fst (snd x)"

definition state_of :: "'a \<times> 'b \<times> 'c \<Rightarrow> 'c" where
  "state_of x = snd (snd x)"

text \<open>A run succeeded when it showed the success message, which follows \<open>save_report\<close>
  returning \<open>True\<close>.\<close>

definition succeeded :: "(exn + unit) \<times> st_msg list \<times> fs \<Rightarrow> bool" where
  "succeeded x = (StSuccess SUCCESS_MESSAGE \<in> set (messages_of x))"

subsection \<open>The pattern of a report identifier\<close>

definition is_digit :: "char \<Rightarrow> bool" where
  "is_digit c = (c \<in> set ''0123456789'')"

text \<open>A full match of \<open>HAZ\d{8}-\d{6}\<close>.\<close>

definition matches_report_id_pattern :: "string \<Rightarrow> bool" where
  "matches_report_id_pattern x =
     (length x = 18 \<and> take 3 x = ''HAZ'' \<and> list_all is_digit (take 8 (drop 3 x)) \<and>
      take 1 (drop 11 x) = ''-'' \<and> list_all is_digit (drop 12 x))"

definition same_second :: "datetime \<Rightarrow> datetime \<Rightarrow> bool" where
  "same_second t1 t2 =
     (year t1 = year t2 \<and> month t1 = month t2 \<and> day t1 = day t2 \<and>
      hour t1 = hour t2 \<and> minute t1 = minute t2 \<and> second t1 = second t2)"

subsection \<open>Trimming\<close>

text \<open>\<open>str.strip()\<close>: the string without its leading and trailing white space.\<close>

definition is_space :: "char \<Rightarrow> bool" where
  "is_space c = (c \<in> set [CHR '' '', CHR 0x09, CHR 0x0A, CHR 0x0B, CHR 0x0C, CHR 0x0D])"

definition strip :: "string \<Rightarrow> string" where
  "strip x = rev (dropWhile is_space (rev (dropWhile is_space x)))"

subsection \<open>Reading the log\<close>

text \<open>
  Modelled from the spec: the repository has no code that reads the log, which the
  program only writes. Reading it back is a reader for the dialect that \<open>to_csv\<close>
  writes, the state machine of Python's \<open>csv.reader\<close>: a field starts quoted
  or not, a doubled quote inside a quoted field is one quote, a comma outside quotes
  ends the field, a line feed or carriage return outside quotes ends the row, and empty
  lines are skipped. The arguments are the state, the field and the row read so far,
  and the remaining text.
\<close>

datatype rstate = StartField | InField | InQuoted | QuoteInQuoted

fun csv_read :: "rstate \<Rightarrow> string \<Rightarrow> string list \<Rightarrow> string \<Rightarrow> string list list" where
  "csv_read st fld row [] = (if st = StartField \<and> row = [] then [] else [row @ [fld]])"
| "csv_read StartField fld row (c # cs) =
     (if c = CHR 0x0A \<or> c = CHR 0x0D then
        (if row = [] then csv_read StartField [] [] cs
         else (row @ [[]]) # csv_read StartField [] [] cs)
      else if c = CHR 0x22 then csv_read InQuoted [] row cs
      else if c = CHR '','' then csv_read StartField [] (row @ [[]]) cs
      else csv_read InField [c] row cs)"
| "csv_read InField fld row (c # cs) =
     (if c = CHR 0x0A \<or> c = CHR 0x0D then (row @ [fld]) # csv_read StartField [] [] cs
      else if c = CHR '','' then csv_read StartField [] (row @ [fld]) cs
      else csv_read InField (fld @ [c]) row cs)"
| "csv_read InQuoted fld row (c # cs) =
     (if c = CHR 0x22 then csv_read QuoteInQuoted fld row cs
      else csv_read InQuoted (fld @ [c]) row cs)"
| "csv_read QuoteInQuoted fld row (c # cs) =
     (if c = CHR 0x22 then csv_read InQuoted (fld @ [c]) row cs
      else if c = CHR '','' then csv_read StartField [] (row @ [fld]) cs
      else if c = CHR 0x0A \<or> c = CHR 0x0D then (row @ [fld]) # csv_read StartField [] [] cs
      else csv_read InField (fld @ [c]) row cs)"

definition read_csv :: "string \<Rightarrow> string list list" where
  "read_csv txt = csv_read StartField [] [] txt"

definition read_log :: "fs \<Rightarrow> string list list option" where
  "read_log s = (case s REPORTS_CSV of Some (File txt) \<Rightarrow> Some (read_csv txt) | _ \<Rightarrow> None)"

text \<open>
  A value reads back as one field when a carriage return in it is inside quotes, that
  is, when the value has no carriage return or the writer quotes it for another
  character.
\<close>

definition reads_back :: "string \<Rightarrow> bool" where
  "reads_back f = (CHR 0x0D \<in> set f \<longrightarrow> needs_quote f)"

subsection \<open>The record of a submission\<close>

text \<open>
  The values of one report in the order of the columns: identifier, time stamp,
  employee (or \<open>Anonymous\<close>), entity, area, urgency tag, description, image reference.
\<close>

definition image_ref :: "datetime \<Rightarrow> form_input \<Rightarrow> string" where
  "image_ref now form =
     (case uploaded_photo form of
        None \<Rightarrow> ''N/A''
      | Some uf \<Rightarrow> ''uploads/'' @ report_id_of now @ snd (splitext (name uf)))"

definition expected_row :: "datetime \<Rightarrow> form_input \<Rightarrow> string list" where
  "expected_row now form =
     [report_id_of now,
      strftime now ''%Y-%m-%d %H:%M:%S'',
      if employee_id form = [] then ''Anonymous'' else employee_id form,
      entity form,
      specific_area form,
      takeWhile (\<lambda>c. c \<noteq> CHR '' '') (urgency form),
      description form,
      image_ref now form]"

text \<open>The file system with the photo of a submission, if it has one, stored.\<close>

definition with_image :: "datetime \<Rightarrow> form_input \<Rightarrow> fs \<Rightarrow> fs" where
  "with_image now form s =
     (case uploaded_photo form of
        None \<Rightarrow> s
      | Some uf \<Rightarrow> s(image_ref now form \<mapsto> File (getbuffer uf)))"

subsection \<open>Sequences of runs\<close>

type_synonym run = "faults \<times> datetime \<times> form_input"

fun run_all :: "run list \<Rightarrow> fs \<Rightarrow> fs" where
  "run_all [] s = s"
| "run_all ((flt, now, form) # rs) s = run_all rs (state_of (main flt now form s))"

fun all_succeed :: "run list \<Rightarrow> fs \<Rightarrow> bool" where
  "all_succeed [] s = True"
| "all_succeed ((flt, now, form) # rs) s =
     (succeeded (main flt now form s) \<and> all_succeed rs (state_of (main flt now form s)))"

text \<open>The log holds the header and the rows \<open>rs\<close>, as \<open>to_csv\<close> writes them.\<close>

definition log_holds :: "fs \<Rightarrow> string list list \<Rightarrow> bool" where
  "log_holds s rs = (s REPORTS_CSV = Some (File (csv_row COLUMNS @ concat (map csv_row rs))))"

subsection \<open>The states of the pipeline\<close>

text \<open>
  The file system after each call that touches it, in the order of the source:
  in \<open>initialize_storage\<close> after \<open>os.makedirs\<close> and after \<open>to_csv\<close>; in \<open>save_image\<close>
  after \<open>open\<close> and after \<open>write\<close>; in \<open>main\<close> the state it starts in, the states of
  \<open>initialize_storage\<close>, then for a form that passes validation the states of
  \<open>save_image\<close> and the state in which the submission ends.
\<close>

definition initialize_states :: "faults \<Rightarrow> fs \<Rightarrow> fs list" where
  "initialize_states flt s =
     (case (if \<not> os_path_exists s UPLOADS_DIR then os_makedirs flt UPLOADS_DIR s
            else (Inr (), s)) of
        (Inl e, s1) \<Rightarrow> [s1]
      | (Inr _, s1) \<Rightarrow> [s1, snd (initialize_storage flt s)])"

definition save_image_states :: "faults \<Rightarrow> UploadedFile option \<Rightarrow> string \<Rightarrow> fs \<Rightarrow> fs list" where
  "save_image_states flt uploaded_file report_id s =
     (case uploaded_file of
        Some uf \<Rightarrow>
          (let image_path = path_join UPLOADS_DIR (report_id @ snd (splitext (name uf)))
           in case open_wb flt image_path s of
                (Inl e, s1) \<Rightarrow> [s1]
              | (Inr _, s1) \<Rightarrow> [s1, snd (file_write flt image_path (getbuffer uf) s1)])
      | None \<Rightarrow> [])"

definition main_states :: "faults \<Rightarrow> datetime \<Rightarrow> form_input \<Rightarrow> fs \<Rightarrow> fs list" where
  "main_states flt now form s =
     s # initialize_states flt s @
     (case initialize_storage flt s of
        (Inl e, s1) \<Rightarrow> []
      | (Inr _, s1) \<Rightarrow>
          (if submitted form \<and> \<not> (description form = [] \<or> specific_area form = []) then
             save_image_states flt (uploaded_photo form) (report_id_of now) s1 @
             [state_of (handle_submission flt now form s1)]
           else []))"

text \<open>
  The reachable states: the program starts on a system without a log, and every state
  of a run of \<open>main\<close>, under any environment, time and form, that starts in a reachable
  state is reachable (also when the run is cut short there).
\<close>

inductive reachable :: "fs \<Rightarrow> bool" where
  fresh: "s REPORTS_CSV = None \<Longrightarrow> reachable s"
| run: "reachable s \<Longrightarrow> s' \<in> set (main_states flt now form s) \<Longrightarrow> reachable s'"

text \<open>
  The image reference of a row of the log is in order when the row has its eight
  columns and the last one is \<open>N/A\<close> or the path of a file that exists.
\<close>

definition image_ref_ok :: "fs \<Rightarrow> string list \<Rightarrow> bool" where
  "image_ref_ok s row =
     (length row = 8 \<and>
      (row ! 7 = ''N/A'' \<or> (case s (row ! 7) of Some (File b) \<Rightarrow> True | _ \<Rightarrow> False)))"

text \<open>No file disappears from \<open>s\<close> to \<open>s'\<close>.\<close>

definition files_kept :: "fs \<Rightarrow> fs \<Rightarrow> bool" where
  "files_kept s s' = (\<forall>p b. s p = Some (File b) \<longrightarrow> (\<exists>b'. s' p = Some (File b')))"

text \<open>
  The invariant of the reachable states: there is no log yet, or the log is the header
  and the rows that the program wrote, and each of these rows has its image reference in
  order.
\<close>

definition log_invariant :: "fs \<Rightarrow> bool" where
  "log_invariant s =
     (s REPORTS_CSV = None \<or> (\<exists>rs. log_holds s rs \<and> list_all (image_ref_ok s) rs))"

subsection \<open>Example inputs\<close>

definition example_time :: datetime where
  "example_time = \<lparr>year = 2025, month = 3, day = 7, hour = 9, minute = 5, second = 0,
                    microsecond = 123\<rparr>"

definition example_form :: form_input where
  "example_form =
     \<lparr>employee_id = [], entity = ''Flour Mill'', specific_area = ''Line 3 Wrapper'',
      description = ''Loose guard rail'',
      urgency = YELLOW @ '' Needs Attention - Potential for Harm'',
      uploaded_photo = None, submitted = True\<rparr>"

definition photo_form :: form_input where
  "photo_form =
     \<lparr>employee_id = ''E17'', entity = ''Warehouse'', specific_area = ''Bay 2, east'',
      description = ''Oil on the floor'',
      urgency = RED @ '' Immediate Danger - Stop Work Required'',
      uploaded_photo = Some \<lparr>name = ''spill.png'', getbuffer = ''abc''\<rparr>, submitted = True\<rparr>"

definition uploads_only :: fs where
  "uploads_only = [UPLOADS_DIR \<mapsto> Dir]"

definition png_file :: UploadedFile where
  "png_file = \<lparr>name = ''a.png'', getbuffer = ''abc''\<rparr>"

definition jpg_file :: UploadedFile where
  "jpg_file = \<lparr>name = ''b.jpg'', getbuffer = ''xyz''\<rparr>"

definition png_file2 :: UploadedFile where
  "png_file2 = \<lparr>name = ''c.png'', getbuffer = ''xyz''\<rparr>"

definition later_time :: datetime where
  "later_time = example_time\<lparr>microsecond := 999\<rparr>"

definition example_runs :: "run list" where
  "example_runs = [(no_faults, example_time, example_form), (no_faults, later_time, photo_form)]"

definition after_photo :: fs where
  "after_photo = state_of (main no_faults example_time photo_form Map.empty)"

definition open_fault :: faults where
  "open_fault = no_faults\<lparr>open_fails := True\<rparr>"

definition nul_file :: UploadedFile where
  "nul_file = \<lparr>name = ''a.p'' @ [CHR 0x00] @ ''ng'', getbuffer = ''abc''\<rparr>"

definition long_file :: UploadedFile where
  "long_file = \<lparr>name = ''a.'' @ replicate 250 CHR ''x'', getbuffer = ''abc''\<rparr>"

definition cr_form :: form_input where
  "cr_form = example_form\<lparr>description := ''a'' @ [CHR 0x0D] @ ''b''\<rparr>"

definition cr_runs :: "run list" where
  "cr_runs = [(no_faults, example_time, cr_form)]"

definition bare_file :: UploadedFile where
  "bare_file = \<lparr>name = ''photo'', getbuffer = ''abc''\<rparr>"

definition blank_form :: form_input where
  "blank_form = example_form\<lparr>specific_area := '' '', description := '' ''\<rparr>"

section \<open>Properties\<close>

subsection \<open>The steps of a submission\<close>

lemma split_on_takeWhile: "\<exists>ws. split_on sep s = takeWhile (\<lambda>c. c \<noteq> sep) s # ws"
  by (induction s) auto

lemma index0_split_on: "index0 (split_on sep s) = Inr (takeWhile (\<lambda>c. c \<noteq> sep) s)"
  using split_on_takeWhile [of sep s] by (auto simp: index0_def)

lemma handle_submission_invalid:
  "submitted form \<Longrightarrow> specific_area form = [] \<or> description form = [] \<Longrightarrow>
   handle_submission flt now form s = (Inr (), [StError VALIDATION_MESSAGE], s)"
  by (auto simp: handle_submission_def)

lemma handle_submission_valid:
  "submitted form \<Longrightarrow> specific_area form \<noteq> [] \<Longrightarrow> description form \<noteq> [] \<Longrightarrow>
   handle_submission flt now form s =
     (case save_image flt (uploaded_photo form) (report_id_of now) s of
        (Inl e, s1) \<Rightarrow> (Inl e, [], s1)
      | (Inr image_path, s1) \<Rightarrow>
          (case save_report flt (report_data_of now (report_id_of now) form
                  (takeWhile (\<lambda>c. c \<noteq> CHR '' '') (urgency form)) image_path) s1 of
             (msgs, True, s2) \<Rightarrow>
               (Inr (), msgs @ [StSuccess SUCCESS_MESSAGE,
                  StInfo (''Your Report ID is: **'' @ report_id_of now @ ''**'')], s2)
           | (msgs, False, s2) \<Rightarrow> (Inr (), msgs @ [StError FAILURE_MESSAGE], s2)))"
  by (simp add: handle_submission_def index0_split_on Let_def split: prod.splits sum.splits)

lemma save_report_cases:
  "save_report flt d s =
     (if to_csv_a_fails flt \<or> s REPORTS_CSV = Some Dir
      then ([StError (''Error saving report: OSError'')], False, s)
      else ([], True, s(REPORTS_CSV \<mapsto> File (file_content s REPORTS_CSV @ csv_row (map snd d)))))"
  by (simp add: save_report_def to_csv_def to_csv_text_def DataFrame_record_def str_exn_def)

subsection \<open>Paths and extensions\<close>

lemma rfind_notin: "c \<notin> set s \<Longrightarrow> rfind c s = - 1"
  by (simp add: rfind_def)

lemma rfind_last: "c \<notin> set b \<Longrightarrow> rfind c (a @ c # b) = int (length a)"
proof -
  assume h: "c \<notin> set b"
  have "takeWhile (\<lambda>x. x \<noteq> c) (rev b @ c # rev a) = rev b"
  proof -
    have "\<And>x. x \<in> set (rev b) \<Longrightarrow> x \<noteq> c" using h by auto
    then have "takeWhile (\<lambda>x. x \<noteq> c) (rev b @ c # rev a) =
                 rev b @ takeWhile (\<lambda>x. x \<noteq> c) (c # rev a)"
      by (rule takeWhile_append2)
    then show ?thesis by simp
  qed
  then show ?thesis by (simp add: rfind_def)
qed

lemma rfind_ge: "- 1 \<le> rfind c s"
proof (cases "c \<in> set s")
  case True
  then obtain a b where "s = a @ c # b" "c \<notin> set b" by (meson split_list_last)
  then show ?thesis by (simp add: rfind_last)
next
  case False
  then show ?thesis by (simp add: rfind_notin)
qed

lemma rfind_drop: "rfind c p < int i \<Longrightarrow> c \<notin> set (drop i p)"
proof (cases "c \<in> set p")
  case True
  assume lt: "rfind c p < int i"
  from True obtain a b where p: "p = a @ c # b" and nb: "c \<notin> set b" by (meson split_list_last)
  with lt have "length a < i" by (simp add: rfind_last)
  then obtain k where k: "i = Suc (length a + k)" using less_imp_Suc_add by blast
  have "drop i p = drop k b" unfolding k p by simp
  then have "set (drop i p) \<subseteq> set b" by (simp add: set_drop_subset)
  then show ?thesis using nb by blast
next
  case False
  then show ?thesis by (meson in_set_dropD)
qed


lemma splitext_loop_Some:
  "splitext_loop p d i = Some r \<Longrightarrow> r = (take d p, drop d p)"
proof (induction p d i rule: splitext_loop.induct)
  case (1 p dotIndex filenameIndex)
  then show ?case
    by (subst (asm) (2) splitext_loop.simps) (auto split: if_splits)
qed

lemma splitext_snd_cases:
  "snd (splitext p) = [] \<or>
   (rfind CHR ''/'' p < rfind CHR ''.'' p \<and> snd (splitext p) = drop (nat (rfind CHR ''.'' p)) p)"
  by (auto simp: splitext_def Let_def split: option.splits dest: splitext_loop_Some)

lemma splitext_no_sep: "CHR ''/'' \<notin> set (snd (splitext p))"
proof -
  consider "snd (splitext p) = []"
    | "rfind CHR ''/'' p < rfind CHR ''.'' p" "snd (splitext p) = drop (nat (rfind CHR ''.'' p)) p"
    using splitext_snd_cases by blast
  then show ?thesis
  proof cases
    case 1
    then show ?thesis by simp
  next
    case 2
    have "0 \<le> rfind CHR ''.'' p" using 2(1) rfind_ge [of "CHR ''/''" p] by linarith
    then have "rfind CHR ''/'' p < int (nat (rfind CHR ''.'' p))" using 2(1) by simp
    then show ?thesis using rfind_drop 2(2) by metis
  qed
qed

lemma splitext_no_dot: "CHR ''.'' \<notin> set p \<Longrightarrow> splitext p = (p, [])"
  using rfind_ge [of "CHR ''/''" p] by (simp add: splitext_def rfind_notin)

subsection \<open>Digits of the time stamp\<close>

lemma digit_char_is_digit: "d < 10 \<Longrightarrow> is_digit (digit_char d)"
proof -
  assume "d < 10"
  then have "d \<in> {0, 1, 2, 3, 4, 5, 6, 7, 8, 9}" by auto
  then show ?thesis by (auto simp: is_digit_def digit_char_def)
qed

lemma dec_digits: "list_all is_digit (dec n)"
proof (induction n rule: dec.induct)
  case (1 n)
  show ?case
  proof (cases "n < 10")
    case True
    then show ?thesis by (subst dec.simps) (simp add: digit_char_is_digit)
  next
    case False
    then have "list_all is_digit (dec (n div 10))" using 1 by simp
    then show ?thesis using False by (subst dec.simps) (simp add: digit_char_is_digit)
  qed
qed

lemma dec_length_10: "n < 10 \<Longrightarrow> length (dec n) = 1"
  by (subst dec.simps) simp

lemma dec_length_100: "n < 100 \<Longrightarrow> length (dec n) \<le> 2"
  by (subst dec.simps) (simp add: dec_length_10)

lemma dec_length_1000: "n < 1000 \<Longrightarrow> length (dec n) \<le> 3"
  by (subst dec.simps) (simp add: dec_length_100)

lemma dec_length_10000: "n < 10000 \<Longrightarrow> length (dec n) \<le> 4"
  by (subst dec.simps) (simp add: dec_length_1000)

lemma is_digit_0: "is_digit CHR ''0''"
  by (simp add: is_digit_def)

lemma zpad_digits: "list_all is_digit (zpad w n)"
  using dec_digits [of n] by (auto simp: zpad_def list_all_iff is_digit_0)

lemma zpad_length: "length (dec n) \<le> w \<Longrightarrow> length (zpad w n) = w"
  by (simp add: zpad_def)

lemma dec_length_2: "10 \<le> n \<Longrightarrow> n < 100 \<Longrightarrow> length (dec n) = 2"
  by (subst dec.simps) (simp add: dec_length_10)

lemma dec_length_3: "100 \<le> n \<Longrightarrow> n < 1000 \<Longrightarrow> length (dec n) = 3"
  by (subst dec.simps) (simp add: dec_length_2)

lemma dec_length_4: "1000 \<le> n \<Longrightarrow> n < 10000 \<Longrightarrow> length (dec n) = 4"
  by (subst dec.simps) (simp add: dec_length_3)

lemma report_id_of_expand:
  "report_id_of t = ''HAZ'' @ dec (year t) @ zpad 2 (month t) @ zpad 2 (day t) @ ''-'' @
     zpad 2 (hour t) @ zpad 2 (minute t) @ zpad 2 (second t)"
  by (simp add: report_id_of_def directive_def)

lemma report_id_chars:
  assumes "c \<in> set (report_id_of t)"
  shows "is_digit c \<or> c \<in> set ''HAZ-''"
  using assms dec_digits [of "year t"] zpad_digits [of 2]
  by (auto simp: report_id_of_expand list_all_iff)

lemma report_id_no_sep: "CHR ''/'' \<notin> set (report_id_of t)"
  using report_id_chars [of "CHR ''/''" t] by (auto simp: is_digit_def)

lemma report_id_no_nul: "CHR 0x00 \<notin> set (report_id_of t)"
  using report_id_chars [of "CHR 0x00" t] by (auto simp: is_digit_def)

lemma report_id_no_cr: "CHR 0x0D \<notin> set (report_id_of t)"
  using report_id_chars [of "CHR 0x0D" t] by (auto simp: is_digit_def)

subsection \<open>Saving the image\<close>

lemma path_join_report_id:
  "path_join UPLOADS_DIR (report_id_of t @ ext) = ''uploads/'' @ report_id_of t @ ext"
  by (simp add: path_join_def UPLOADS_DIR_def report_id_of_expand)

lemma parent_ok_uploads:
  "CHR ''/'' \<notin> set b \<Longrightarrow> parent_ok s (''uploads/'' @ b) = (s UPLOADS_DIR = Some Dir)"
  using rfind_last [of "CHR ''/''" b "''uploads''"]
  by (simp add: parent_ok_def UPLOADS_DIR_def)

lemma split_on_no_sep: "sep \<notin> set b \<Longrightarrow> split_on sep b = [b]"
  by (induction b) auto

lemma name_too_long_uploads:
  "CHR ''/'' \<notin> set b \<Longrightarrow> name_too_long (''uploads/'' @ b) = (NAME_MAX < length b)"
  by (simp add: name_too_long_def split_on_no_sep NAME_MAX_def)

lemma save_image_None: "save_image flt None rid s = (Inr None, s)"
  by (simp add: save_image_def)

text \<open>
  What \<open>save_image\<close> does with a photo, for a report identifier that \<open>main\<close> makes: the
  extension of the name decides the first two tests, the environment and the file
  system the others.
\<close>

lemma save_image_Some:
  "save_image flt (Some uf) (report_id_of t) s =
     (let ext = snd (splitext (name uf));
          path = ''uploads/'' @ report_id_of t @ ext
      in if CHR 0x00 \<in> set ext then (Inl ValueError, s)
         else if open_fails flt \<or> NAME_MAX < length (report_id_of t @ ext) \<or>
                 s UPLOADS_DIR \<noteq> Some Dir \<or> s path = Some Dir
         then (Inl OSError, s)
         else if write_fails flt then (Inl OSError, s(path \<mapsto> File []))
         else (Inr (Some path), s(path \<mapsto> File (getbuffer uf))))"
proof -
  let ?b = "report_id_of t @ snd (splitext (name uf))"
  have sep: "CHR ''/'' \<notin> set ?b"
    by (simp add: report_id_no_sep splitext_no_sep)
  have par: "parent_ok s (''uploads/'' @ ?b) = (s UPLOADS_DIR = Some Dir)"
    using sep by (rule parent_ok_uploads)
  have long: "name_too_long (''uploads/'' @ ?b) = (NAME_MAX < length ?b)"
    using sep by (rule name_too_long_uploads)
  have nul: "(CHR 0x00 \<in> set (''uploads/'' @ ?b)) = (CHR 0x00 \<in> set (snd (splitext (name uf))))"
    by (simp add: report_id_no_nul)
  have "open_wb flt (''uploads/'' @ ?b) s =
          (if CHR 0x00 \<in> set (snd (splitext (name uf))) then (Inl ValueError, s)
           else if open_fails flt \<or> NAME_MAX < length ?b \<or> s UPLOADS_DIR \<noteq> Some Dir \<or>
                   s (''uploads/'' @ ?b) = Some Dir
           then (Inl OSError, s)
           else (Inr (), s(''uploads/'' @ ?b \<mapsto> File [])))"
    unfolding open_wb_def nul long par by simp
  then show ?thesis
    by (simp add: save_image_def Let_def path_join_report_id file_write_def file_content_def)
qed

lemma save_image_keeps_log:
  "snd (save_image flt photo (report_id_of t) s) REPORTS_CSV = s REPORTS_CSV"
  by (cases photo) (auto simp: save_image_None save_image_Some Let_def REPORTS_CSV_def)

subsection \<open>A successful submission\<close>

lemma save_image_Inr:
  assumes "save_image flt photo (report_id_of now) s = (Inr ip, s1)"
  shows "(case photo of
            None \<Rightarrow> ip = None \<and> s1 = s
          | Some uf \<Rightarrow>
              ip = Some (''uploads/'' @ report_id_of now @ snd (splitext (name uf))) \<and>
              s1 = s(''uploads/'' @ report_id_of now @ snd (splitext (name uf)) \<mapsto>
                       File (getbuffer uf)) \<and>
              s UPLOADS_DIR = Some Dir)"
  using assms
  by (cases photo) (auto simp: save_image_None save_image_Some Let_def split: if_splits)

lemma report_data_row:
  assumes "save_image flt (uploaded_photo form) (report_id_of now) s = (Inr ip, s1)"
  shows "map snd (report_data_of now (report_id_of now) form
           (takeWhile (\<lambda>c. c \<noteq> CHR '' '') (urgency form)) ip) = expected_row now form"
  using save_image_Inr [OF assms]
  by (cases "uploaded_photo form") (auto simp: report_data_of_def expected_row_def image_ref_def)

lemma report_data_columns: "map fst (report_data_of now rid form tag ip) = COLUMNS"
  by (simp add: report_data_of_def COLUMNS_def)

lemma with_image_log: "with_image now form s REPORTS_CSV = s REPORTS_CSV"
  by (cases "uploaded_photo form") (auto simp: with_image_def image_ref_def REPORTS_CSV_def)

lemma handle_submission_success:
  assumes "succeeded (handle_submission flt now form s)"
  shows "submitted form \<and> specific_area form \<noteq> [] \<and> description form \<noteq> [] \<and>
         fst (save_image flt (uploaded_photo form) (report_id_of now) s)
           = Inr (map_option (\<lambda>uf. image_ref now form) (uploaded_photo form)) \<and>
         handle_submission flt now form s =
           (Inr (),
            [StSuccess SUCCESS_MESSAGE, StInfo (''Your Report ID is: **'' @ report_id_of now @ ''**'')],
            (with_image now form s)(REPORTS_CSV \<mapsto>
               File (file_content s REPORTS_CSV @ csv_row (expected_row now form))))"
proof -
  have sub: "submitted form"
    using assms by (auto simp: succeeded_def messages_of_def handle_submission_def split: if_splits)
  have ne: "specific_area form \<noteq> [] \<and> description form \<noteq> []"
    using assms sub
    by (auto simp: succeeded_def messages_of_def handle_submission_def SUCCESS_MESSAGE_def
             split: if_splits)
  obtain r s1 where si: "save_image flt (uploaded_photo form) (report_id_of now) s = (r, s1)"
    by (cases "save_image flt (uploaded_photo form) (report_id_of now) s") auto
  have hs: "handle_submission flt now form s =
     (case save_image flt (uploaded_photo form) (report_id_of now) s of
        (Inl e, s1) \<Rightarrow> (Inl e, [], s1)
      | (Inr image_path, s1) \<Rightarrow>
          (case save_report flt (report_data_of now (report_id_of now) form
                  (takeWhile (\<lambda>c. c \<noteq> CHR '' '') (urgency form)) image_path) s1 of
             (msgs, True, s2) \<Rightarrow>
               (Inr (), msgs @ [StSuccess SUCCESS_MESSAGE,
                  StInfo (''Your Report ID is: **'' @ report_id_of now @ ''**'')], s2)
           | (msgs, False, s2) \<Rightarrow> (Inr (), msgs @ [StError FAILURE_MESSAGE], s2)))"
    using sub ne by (simp add: handle_submission_valid)
  obtain ip where r: "r = Inr ip"
    using assms hs si by (cases r) (auto simp: succeeded_def messages_of_def)
  note row = report_data_row [OF si [unfolded r]]
  note img = save_image_Inr [OF si [unfolded r]]
  have ok: "\<not> (to_csv_a_fails flt \<or> s1 REPORTS_CSV = Some Dir)"
    using assms hs si r
    by (auto simp: succeeded_def messages_of_def save_report_cases row split: if_splits)
  have s1: "s1 = with_image now form s"
    using img by (cases "uploaded_photo form") (auto simp: with_image_def image_ref_def)
  have ipv: "ip = map_option (\<lambda>uf. image_ref now form) (uploaded_photo form)"
    using img by (cases "uploaded_photo form") (auto simp: image_ref_def)
  have "handle_submission flt now form s =
           (Inr (),
            [StSuccess SUCCESS_MESSAGE, StInfo (''Your Report ID is: **'' @ report_id_of now @ ''**'')],
            s1(REPORTS_CSV \<mapsto> File (file_content s1 REPORTS_CSV @ csv_row (expected_row now form))))"
    using ok by (simp add: hs si r save_report_cases row)
  moreover have "file_content s1 REPORTS_CSV = file_content s REPORTS_CSV"
    by (simp add: s1 file_content_def with_image_log)
  ultimately show ?thesis using sub ne si r ipv s1 by simp
qed

lemma takeWhile_split:
  "u = takeWhile (\<lambda>c. c \<noteq> x) u \<or> (\<exists>rest. u = takeWhile (\<lambda>c. c \<noteq> x) u @ x # rest)"
proof (cases "dropWhile (\<lambda>c. c \<noteq> x) u")
  case Nil
  then have "takeWhile (\<lambda>c. c \<noteq> x) u = u"
    using takeWhile_dropWhile_id [of "\<lambda>c. c \<noteq> x" u] by simp
  from this [symmetric] show ?thesis by (rule disjI1)
next
  case (Cons y rest)
  then have "y = x" using hd_dropWhile [of "\<lambda>c. c \<noteq> x" u] by simp
  then have "u = takeWhile (\<lambda>c. c \<noteq> x) u @ x # rest"
    using Cons takeWhile_dropWhile_id [of "\<lambda>c. c \<noteq> x" u] by simp
  then show ?thesis by blast
qed

lemma takeWhile_no_sep: "y \<notin> set (takeWhile (\<lambda>c. c \<noteq> y) xs)"
  by (metis (mono_tags, lifting) set_takeWhileD)

lemma expected_row_length: "length (expected_row now form) = length COLUMNS"
  by (simp add: expected_row_def COLUMNS_def)

lemma example_succeeds: "succeeded (handle_submission no_faults example_time example_form Map.empty)"
  by (simp add: succeeded_def messages_of_def handle_submission_valid example_form_def
                save_image_None save_report_cases no_faults_def)

subsection \<open>C9: the stored urgency is the leading tag\<close>

text \<open>
  C9. For every successful submission, the row appended to the log has, in the column
  \<open>Urgency\<close>, the leading tag of the selected urgency option: the part of the option
  before its first space, with no space in it and everything after it discarded. For
  the three options of the form, the tag is the emoji alone.
\<close>

theorem urgency_stored_as_leading_tag:
  assumes "succeeded (handle_submission flt now form s)"
  shows "\<exists>row tag.
           state_of (handle_submission flt now form s) REPORTS_CSV =
             Some (File (file_content s REPORTS_CSV @ csv_row row)) \<and>
           length row = length COLUMNS \<and> COLUMNS ! 5 = ''Urgency'' \<and> row ! 5 = tag \<and>
           CHR '' '' \<notin> set tag \<and>
           (urgency form = tag \<or> (\<exists>rest. urgency form = tag @ CHR '' '' # rest)) \<and>
           (\<forall>i < 3. urgency form = URGENCY_OPTIONS ! i \<longrightarrow> tag = [RED, YELLOW, GREEN] ! i)"
proof -
  let ?tag = "takeWhile (\<lambda>c. c \<noteq> CHR '' '') (urgency form)"
  have st: "state_of (handle_submission flt now form s) REPORTS_CSV =
             Some (File (file_content s REPORTS_CSV @ csv_row (expected_row now form)))"
    using handle_submission_success [OF assms] by (simp add: state_of_def)
  have tag: "expected_row now form ! 5 = ?tag" by (simp add: expected_row_def)
  have opts: "\<forall>i < 3. urgency form = URGENCY_OPTIONS ! i \<longrightarrow> ?tag = [RED, YELLOW, GREEN] ! i"
  proof (intro allI impI)
    fix i :: nat assume "i < 3" and u: "urgency form = URGENCY_OPTIONS ! i"
    then have "i = 0 \<or> i = 1 \<or> i = 2" by auto
    then show "?tag = [RED, YELLOW, GREEN] ! i"
      using u by (auto simp: URGENCY_OPTIONS_def RED_def YELLOW_def GREEN_def)
  qed
  show ?thesis
    using st tag opts expected_row_length takeWhile_no_sep [of "CHR '' ''" "urgency form"]
      takeWhile_split [of "urgency form" "CHR '' ''"]
    by (intro exI [of _ "expected_row now form"] exI [of _ ?tag]) (simp add: COLUMNS_def)
qed

theorem urgency_stored_as_leading_tag_witness:
  "succeeded (handle_submission no_faults example_time example_form Map.empty) \<and>
   (\<exists>row tag.
      state_of (handle_submission no_faults example_time example_form Map.empty) REPORTS_CSV =
        Some (File (file_content Map.empty REPORTS_CSV @ csv_row row)) \<and>
      length row = length COLUMNS \<and> COLUMNS ! 5 = ''Urgency'' \<and> row ! 5 = tag \<and>
      CHR '' '' \<notin> set tag \<and>
      (urgency example_form = tag \<or> (\<exists>rest. urgency example_form = tag @ CHR '' '' # rest)) \<and>
      (\<forall>i < 3. urgency example_form = URGENCY_OPTIONS ! i \<longrightarrow> tag = [RED, YELLOW, GREEN] ! i))"
  using example_succeeds urgency_stored_as_leading_tag [OF example_succeeds] by blast

subsection \<open>C1: validation rejects exactly the empty fields\<close>

lemma valid_shows_no_validation_error:
  assumes "submitted form" "specific_area form \<noteq> []" "description form \<noteq> []"
  shows "StError VALIDATION_MESSAGE \<notin> set (messages_of (handle_submission flt now form s))"
proof -
  have a: "StError VALIDATION_MESSAGE \<noteq> StError FAILURE_MESSAGE"
    by (simp add: VALIDATION_MESSAGE_def FAILURE_MESSAGE_def)
  have b: "StError VALIDATION_MESSAGE \<noteq> StError ''Error saving report: OSError''"
    by (simp add: VALIDATION_MESSAGE_def)
  show ?thesis
    using a b
    by (auto simp: handle_submission_valid [OF assms] messages_of_def save_report_cases
             split: prod.splits sum.splits if_splits)
qed

text \<open>
  C1, as stated: the validation error is returned if and only if \<open>specific_area\<close> or
  \<open>description\<close> is empty after trimming. The program tests the strings as they are:
  a form whose two fields hold one space each passes the test and is saved.
\<close>

theorem whitespace_only_fields_pass_validation:
  "\<not> (StError VALIDATION_MESSAGE \<in> set (messages_of
          (handle_submission no_faults example_time blank_form Map.empty)) \<longleftrightarrow>
        strip (specific_area blank_form) = [] \<or> strip (description blank_form) = [])"
proof -
  have "strip (specific_area blank_form) = []"
    by (simp add: blank_form_def strip_def is_space_def)
  moreover have "StError VALIDATION_MESSAGE \<notin> set (messages_of
          (handle_submission no_faults example_time blank_form Map.empty))"
    by (rule valid_shows_no_validation_error) (simp_all add: blank_form_def example_form_def)
  ultimately show ?thesis by simp
qed

text \<open>
  C1, amended. For every submitted form, the run shows the validation error (one fixed
  message that names both fields) if and only if \<open>specific_area\<close> or \<open>description\<close> is
  the empty string, with no trimming; in that case it shows only this message and
  leaves the file system as it was.
\<close>

theorem validation_rejects_exactly_empty_fields:
  assumes "submitted form"
  shows "(StError VALIDATION_MESSAGE \<in> set (messages_of (handle_submission flt now form s)))
           = (specific_area form = [] \<or> description form = []) \<and>
         (specific_area form = [] \<or> description form = [] \<longrightarrow>
            handle_submission flt now form s = (Inr (), [StError VALIDATION_MESSAGE], s))"
proof (cases "specific_area form = [] \<or> description form = []")
  case True
  then show ?thesis
    using handle_submission_invalid [OF assms True] by (simp add: messages_of_def)
next
  case False
  then show ?thesis
    using valid_shows_no_validation_error [OF assms, of flt now s] by simp
qed

theorem validation_rejects_exactly_empty_fields_witness:
  "submitted (example_form\<lparr>description := []\<rparr>) \<and>
   (StError VALIDATION_MESSAGE \<in> set (messages_of
      (handle_submission no_faults example_time (example_form\<lparr>description := []\<rparr>) uploads_only)))
     = (specific_area (example_form\<lparr>description := []\<rparr>) = [] \<or>
        description (example_form\<lparr>description := []\<rparr>) = []) \<and>
   handle_submission no_faults example_time (example_form\<lparr>description := []\<rparr>) uploads_only
     = (Inr (), [StError VALIDATION_MESSAGE], uploads_only)"
proof -
  have h: "submitted (example_form\<lparr>description := []\<rparr>)" by (simp add: example_form_def)
  show ?thesis
    using h validation_rejects_exactly_empty_fields [OF h, of no_faults example_time uploads_only]
    by (simp add: messages_of_def)
qed

subsection \<open>C3: a rejected form changes nothing\<close>

lemma main_unfold:
  "main flt now form s =
     (case initialize_storage flt s of
        (Inl e, s1) \<Rightarrow> (Inl e, [], s1)
      | (Inr u, s1) \<Rightarrow>
          (result_of (handle_submission flt now form s1),
           logo_messages s1 @ messages_of (handle_submission flt now form s1),
           state_of (handle_submission flt now form s1)))"
  by (simp add: main_def result_of_def messages_of_def state_of_def split: prod.splits sum.splits)

text \<open>
  C3. For every submitted form in which \<open>specific_area\<close> or \<open>description\<close> (or both) is
  missing, the submission ends with the validation error and the file system it was
  given: in a run of \<open>main\<close> the final state is the one that storage initialisation
  left, so no image is written and no row is appended, and the run is not a success.
\<close>

theorem rejected_form_leaves_files_unchanged:
  assumes "submitted form" "specific_area form = [] \<or> description form = []"
  shows "handle_submission flt now form s = (Inr (), [StError VALIDATION_MESSAGE], s) \<and>
         state_of (main flt now form s) = snd (initialize_storage flt s) \<and>
         \<not> succeeded (main flt now form s)"
proof -
  have hs: "\<And>s. handle_submission flt now form s = (Inr (), [StError VALIDATION_MESSAGE], s)"
    using assms by (rule handle_submission_invalid)
  have "state_of (main flt now form s) = snd (initialize_storage flt s)"
    by (cases "initialize_storage flt s")
       (auto simp: main_unfold hs state_of_def split: sum.splits)
  moreover have "\<not> succeeded (main flt now form s)"
    by (cases "initialize_storage flt s")
       (auto simp: main_unfold hs succeeded_def messages_of_def logo_messages_def
             split: sum.splits)
  ultimately show ?thesis using hs by simp
qed

theorem rejected_form_leaves_files_unchanged_witness:
  "submitted (example_form\<lparr>specific_area := []\<rparr>) \<and>
   (specific_area (example_form\<lparr>specific_area := []\<rparr>) = [] \<or>
    description (example_form\<lparr>specific_area := []\<rparr>) = []) \<and>
   handle_submission no_faults example_time (example_form\<lparr>specific_area := []\<rparr>) uploads_only
     = (Inr (), [StError VALIDATION_MESSAGE], uploads_only) \<and>
   state_of (main no_faults example_time (example_form\<lparr>specific_area := []\<rparr>) uploads_only)
     = snd (initialize_storage no_faults uploads_only) \<and>
   \<not> succeeded (main no_faults example_time (example_form\<lparr>specific_area := []\<rparr>) uploads_only)"
proof -
  have h1: "submitted (example_form\<lparr>specific_area := []\<rparr>)" by (simp add: example_form_def)
  have h2: "specific_area (example_form\<lparr>specific_area := []\<rparr>) = [] \<or>
            description (example_form\<lparr>specific_area := []\<rparr>) = []" by simp
  show ?thesis
    using h1 h2 rejected_form_leaves_files_unchanged [OF h1 h2, of no_faults example_time uploads_only]
    by simp
qed

subsection \<open>C7: storage initialisation is idempotent\<close>

lemma initialize_storage_cases:
  "initialize_storage flt s =
     (if s UPLOADS_DIR = None \<and> makedirs_fails flt then (Inl OSError, s)
      else let s1 = (if s UPLOADS_DIR = None then s(UPLOADS_DIR \<mapsto> Dir) else s)
           in if s REPORTS_CSV \<noteq> None then (Inr (), s1)
              else if to_csv_w_fails flt then (Inl OSError, s1)
              else (Inr (), s1(REPORTS_CSV \<mapsto> File (csv_row COLUMNS))))"
  by (auto simp: initialize_storage_def os_path_exists_def os_makedirs_def to_csv_def
                 to_csv_text_def DataFrame_columns_def UPLOADS_DIR_def REPORTS_CSV_def Let_def)

lemma read_csv_header: "read_csv (csv_row COLUMNS) = [COLUMNS]"
  by (simp add: read_csv_def csv_row_def COLUMNS_def csv_field_def needs_quote_def
                special_char_def)

text \<open>
  C7. For every file system and every environment, the state after running the
  initialiser twice is the state after running it once; once a run has completed, a
  further run (in any environment) completes and changes nothing; a log that exists is
  left as it is, whatever it holds; and a log that the initialiser creates reads back as
  the header row alone.
\<close>

theorem initialize_storage_idempotent:
  "snd (initialize_storage flt (snd (initialize_storage flt s))) = snd (initialize_storage flt s) \<and>
   (fst (initialize_storage flt s) = Inr () \<longrightarrow>
      initialize_storage flt' (snd (initialize_storage flt s))
        = (Inr (), snd (initialize_storage flt s))) \<and>
   (s REPORTS_CSV \<noteq> None \<longrightarrow> snd (initialize_storage flt s) REPORTS_CSV = s REPORTS_CSV) \<and>
   (s REPORTS_CSV = None \<and> fst (initialize_storage flt s) = Inr () \<longrightarrow>
      read_log (snd (initialize_storage flt s)) = Some [COLUMNS])"
proof (intro conjI impI)
  show "snd (initialize_storage flt (snd (initialize_storage flt s))) = snd (initialize_storage flt s)"
    by (auto simp: initialize_storage_cases Let_def UPLOADS_DIR_def REPORTS_CSV_def)
  show "initialize_storage flt' (snd (initialize_storage flt s))
        = (Inr (), snd (initialize_storage flt s))"
    if "fst (initialize_storage flt s) = Inr ()"
    using that
    by (auto simp: initialize_storage_cases Let_def UPLOADS_DIR_def REPORTS_CSV_def
             split: if_splits)
  show "snd (initialize_storage flt s) REPORTS_CSV = s REPORTS_CSV" if "s REPORTS_CSV \<noteq> None"
    using that
    by (auto simp: initialize_storage_cases Let_def UPLOADS_DIR_def REPORTS_CSV_def)
  show "read_log (snd (initialize_storage flt s)) = Some [COLUMNS]"
    if "s REPORTS_CSV = None \<and> fst (initialize_storage flt s) = Inr ()"
    using that
    by (auto simp: initialize_storage_cases Let_def read_log_def read_csv_header
             split: if_splits)
qed

theorem initialize_storage_idempotent_witness:
  "fst (initialize_storage no_faults Map.empty) = Inr () \<and>
   initialize_storage no_faults (snd (initialize_storage no_faults Map.empty))
     = (Inr (), snd (initialize_storage no_faults Map.empty)) \<and>
   read_log (snd (initialize_storage no_faults Map.empty)) = Some [COLUMNS] \<and>
   [REPORTS_CSV \<mapsto> File ''x''] REPORTS_CSV \<noteq> None \<and>
   snd (initialize_storage no_faults [REPORTS_CSV \<mapsto> File ''x'']) REPORTS_CSV
     = [REPORTS_CSV \<mapsto> File ''x''] REPORTS_CSV"
proof -
  have h: "fst (initialize_storage no_faults Map.empty) = Inr ()"
    by (simp add: initialize_storage_cases no_faults_def)
  have g: "[REPORTS_CSV \<mapsto> File ''x''] REPORTS_CSV \<noteq> None" by simp
  show ?thesis
    using h g initialize_storage_idempotent [of no_faults Map.empty no_faults]
      initialize_storage_idempotent [of no_faults "[REPORTS_CSV \<mapsto> File ''x'']" no_faults]
    by simp
qed

subsection \<open>C10: the file name of the photo\<close>

lemma splitext_simple:
  assumes "a \<noteq> CHR ''/''" "a \<noteq> CHR ''.''" "CHR ''.'' \<notin> set xs" "CHR ''/'' \<notin> set xs"
  shows "splitext (a # CHR ''.'' # xs) = ([a], CHR ''.'' # xs)"
proof -
  have d: "rfind CHR ''.'' (a # CHR ''.'' # xs) = 1"
    using rfind_last [of "CHR ''.''" xs "[a]"] assms(3) by simp
  have p: "rfind CHR ''/'' (a # CHR ''.'' # xs) = - 1"
    using assms(1,4) by (simp add: rfind_notin)
  have "splitext_loop (a # CHR ''.'' # xs) 1 0 = Some ([a], CHR ''.'' # xs)"
    using assms(2) by (subst splitext_loop.simps) simp
  then show ?thesis by (simp add: splitext_def d p)
qed

lemma report_id_length:
  assumes "valid_datetime now"
  shows "length (report_id_of now) \<le> 18"
proof -
  have "day now \<le> 31"
    using assms by (simp add: valid_datetime_def days_in_month_def split: if_splits)
  then have "length (zpad 2 (day now)) = 2" by (intro zpad_length dec_length_100) simp
  moreover have "length (zpad 2 (month now)) = 2" "length (zpad 2 (hour now)) = 2"
    "length (zpad 2 (minute now)) = 2" "length (zpad 2 (second now)) = 2"
    using assms by (simp_all add: valid_datetime_def zpad_length dec_length_100)
  moreover have "length (dec (year now)) \<le> 4"
    using assms by (intro dec_length_10000) (simp add: valid_datetime_def)
  ultimately show ?thesis by (simp add: report_id_of_expand)
qed

lemma report_id_example: "report_id_of example_time = ''HAZ20250307-090500''"
  by (simp add: report_id_of_def directive_def example_time_def zpad_def dec.simps digit_char_def)

lemma example_time_valid: "valid_datetime example_time"
  by (simp add: valid_datetime_def example_time_def days_in_month_def)

text \<open>
  C10, as stated: \<open>save_image\<close> never fails because of the shape of the file name. The
  extension of the name becomes part of the path that is opened: with the image
  directory in place, no directory at the target and no failure of the environment, a
  null character in the extension makes \<open>open\<close> raise \<open>ValueError\<close>, and an
  extension of 251 bytes makes the file name longer than the system accepts.
\<close>

theorem filename_can_make_save_image_fail:
  "\<not> open_fails no_faults \<and> \<not> write_fails no_faults \<and> uploads_only UPLOADS_DIR = Some Dir \<and>
   uploads_only (''uploads/'' @ report_id_of example_time @ snd (splitext (name nul_file)))
     \<noteq> Some Dir \<and>
   uploads_only (''uploads/'' @ report_id_of example_time @ snd (splitext (name long_file)))
     \<noteq> Some Dir \<and>
   save_image no_faults (Some nul_file) (report_id_of example_time) uploads_only
     = (Inl ValueError, uploads_only) \<and>
   save_image no_faults (Some long_file) (report_id_of example_time) uploads_only
     = (Inl OSError, uploads_only)"
proof -
  have n: "snd (splitext (name nul_file)) = ''.p'' @ [CHR 0x00] @ ''ng''"
    using splitext_simple [of "CHR ''a''" "''p'' @ [CHR 0x00] @ ''ng''"]
    by (simp add: nul_file_def)
  have l: "snd (splitext (name long_file)) = CHR ''.'' # replicate 250 CHR ''x''"
    using splitext_simple [of "CHR ''a''" "replicate 250 CHR ''x''"]
    by (simp add: long_file_def)
  have e: "length (report_id_of example_time) = 18" by (simp add: report_id_example)
  have a: "save_image no_faults (Some nul_file) (report_id_of example_time) uploads_only
             = (Inl ValueError, uploads_only)"
    by (simp add: save_image_Some Let_def n)
  have b: "save_image no_faults (Some long_file) (report_id_of example_time) uploads_only
             = (Inl OSError, uploads_only)"
    by (simp add: save_image_Some Let_def l e NAME_MAX_def)
  have c: "uploads_only (''uploads/'' @ x) \<noteq> Some Dir" for x
    by (simp add: uploads_only_def UPLOADS_DIR_def)
  show ?thesis
    using a b c by (simp add: no_faults_def uploads_only_def UPLOADS_DIR_def)
qed

text \<open>
  C10, amended. For an attached photo whose original file name has no dot, the extension
  is the empty string and the image is saved under the bare report identifier, whatever
  else the name holds, unless the environment makes the opening or the writing fail,
  the image directory is missing or the target is a directory. For a name with an
  extension, \<open>save_image\<close> returns a path exactly when, besides these conditions, the
  extension holds no null character and the report identifier followed by the
  extension has at most 255 bytes.
\<close>

theorem save_image_and_the_filename:
  assumes "valid_datetime now"
  shows "(CHR ''.'' \<notin> set (name uf) \<longrightarrow>
           splitext (name uf) = (name uf, []) \<and>
           (\<not> open_fails flt \<and> \<not> write_fails flt \<and> s UPLOADS_DIR = Some Dir \<and>
            s (''uploads/'' @ report_id_of now) \<noteq> Some Dir \<longrightarrow>
              save_image flt (Some uf) (report_id_of now) s =
                (Inr (Some (''uploads/'' @ report_id_of now)),
                 s(''uploads/'' @ report_id_of now \<mapsto> File (getbuffer uf))))) \<and>
         ((\<exists>ip. fst (save_image flt (Some uf) (report_id_of now) s) = Inr ip) =
            (CHR 0x00 \<notin> set (snd (splitext (name uf))) \<and>
             length (report_id_of now @ snd (splitext (name uf))) \<le> NAME_MAX \<and>
             \<not> open_fails flt \<and> \<not> write_fails flt \<and> s UPLOADS_DIR = Some Dir \<and>
             s (''uploads/'' @ report_id_of now @ snd (splitext (name uf))) \<noteq> Some Dir))"
proof (intro conjI impI)
  have len: "\<not> NAME_MAX < length (report_id_of now)"
    using report_id_length [OF assms] by (simp add: NAME_MAX_def)
  show "splitext (name uf) = (name uf, [])" if "CHR ''.'' \<notin> set (name uf)"
    using that by (rule splitext_no_dot)
  show "save_image flt (Some uf) (report_id_of now) s =
          (Inr (Some (''uploads/'' @ report_id_of now)),
           s(''uploads/'' @ report_id_of now \<mapsto> File (getbuffer uf)))"
    if "CHR ''.'' \<notin> set (name uf)"
      and "\<not> open_fails flt \<and> \<not> write_fails flt \<and> s UPLOADS_DIR = Some Dir \<and>
           s (''uploads/'' @ report_id_of now) \<noteq> Some Dir"
    using that len by (simp add: save_image_Some Let_def splitext_no_dot)
  show "(\<exists>ip. fst (save_image flt (Some uf) (report_id_of now) s) = Inr ip) =
            (CHR 0x00 \<notin> set (snd (splitext (name uf))) \<and>
             length (report_id_of now @ snd (splitext (name uf))) \<le> NAME_MAX \<and>
             \<not> open_fails flt \<and> \<not> write_fails flt \<and> s UPLOADS_DIR = Some Dir \<and>
             s (''uploads/'' @ report_id_of now @ snd (splitext (name uf))) \<noteq> Some Dir)"
    by (auto simp: save_image_Some Let_def)
qed

theorem save_image_and_the_filename_witness:
  "valid_datetime example_time \<and>
   CHR ''.'' \<notin> set (name bare_file) \<and> splitext (name bare_file) = (name bare_file, []) \<and>
   \<not> open_fails no_faults \<and> \<not> write_fails no_faults \<and> uploads_only UPLOADS_DIR = Some Dir \<and>
   uploads_only (''uploads/'' @ report_id_of example_time) \<noteq> Some Dir \<and>
   save_image no_faults (Some bare_file) (report_id_of example_time) uploads_only =
     (Inr (Some ''uploads/HAZ20250307-090500''),
      uploads_only(''uploads/HAZ20250307-090500'' \<mapsto> File ''abc''))"
proof -
  have h1: "CHR ''.'' \<notin> set (name bare_file)" by (simp add: bare_file_def)
  have h2: "\<not> open_fails no_faults \<and> \<not> write_fails no_faults \<and>
            uploads_only UPLOADS_DIR = Some Dir \<and>
            uploads_only (''uploads/'' @ report_id_of example_time) \<noteq> Some Dir"
    by (simp add: no_faults_def uploads_only_def UPLOADS_DIR_def report_id_example)
  show ?thesis
    using example_time_valid h1 h2
      save_image_and_the_filename [OF example_time_valid, of bare_file no_faults uploads_only]
    by (simp add: report_id_example bare_file_def)
qed

subsection \<open>C5: the report identifier\<close>

lemma zpad2: "n < 100 \<Longrightarrow> length (zpad 2 n) = 2"
  by (rule zpad_length) (rule dec_length_100)

lemma days_in_month_le: "days_in_month y m \<le> 31"
  by (simp add: days_in_month_def)

lemma pattern_of_parts:
  assumes "length a = 4" "length b = 2" "length c = 2" "length d = 2" "length e = 2" "length f = 2"
    and "list_all is_digit a" "list_all is_digit b" "list_all is_digit c"
    and "list_all is_digit d" "list_all is_digit e" "list_all is_digit f"
  shows "matches_report_id_pattern (''HAZ'' @ a @ b @ c @ ''-'' @ d @ e @ f)"
  using assms by (simp add: matches_report_id_pattern_def)

lemma report_id_matches:
  assumes "valid_datetime t" "1000 \<le> year t"
  shows "matches_report_id_pattern (report_id_of t)"
proof -
  have d: "day t < 100"
    using assms(1) days_in_month_le [of "year t" "month t"] by (simp add: valid_datetime_def)
  have y: "length (dec (year t)) = 4"
    using assms by (intro dec_length_4) (simp_all add: valid_datetime_def)
  have "month t < 100" "hour t < 100" "minute t < 100" "second t < 100"
    using assms(1) by (simp_all add: valid_datetime_def)
  then show ?thesis
    unfolding report_id_of_expand
    using d y by (intro pattern_of_parts zpad2 zpad_digits dec_digits)
qed

lemma submission_succeeds:
  assumes v: "submitted form" "specific_area form \<noteq> []" "description form \<noteq> []"
    and io: "fst (save_image flt (uploaded_photo form) (report_id_of now) s) = Inr ip"
      "\<not> to_csv_a_fails flt" "s REPORTS_CSV \<noteq> Some Dir"
  shows "succeeded (handle_submission flt now form s)"
proof -
  obtain r s1 where si: "save_image flt (uploaded_photo form) (report_id_of now) s = (r, s1)"
    by (cases "save_image flt (uploaded_photo form) (report_id_of now) s") auto
  have r: "r = Inr ip" using io(1) si by simp
  have s1log: "s1 REPORTS_CSV = s REPORTS_CSV"
    using save_image_keeps_log [of flt "uploaded_photo form" now s] si by simp
  show ?thesis
    using io s1log
    by (simp add: succeeded_def messages_of_def handle_submission_valid [OF v] si r
                  save_report_cases)
qed

text \<open>
  The year must have four digits for the identifier to have its eighteen characters:
  in the year 999 the date part has seven digits.
\<close>

lemma report_id_in_year_999:
  "report_id_of (example_time\<lparr>year := 999\<rparr>) = ''HAZ9990307-090500'' \<and>
   \<not> matches_report_id_pattern (report_id_of (example_time\<lparr>year := 999\<rparr>))"
proof -
  have "report_id_of (example_time\<lparr>year := 999\<rparr>) = ''HAZ9990307-090500''"
    by (simp add: report_id_of_def directive_def example_time_def zpad_def dec.simps
                  digit_char_def)
  then show ?thesis by (simp add: matches_report_id_pattern_def)
qed

text \<open>
  C5. For every submitted form with \<open>specific_area\<close> and \<open>description\<close> non-empty, at
  every time of a clock that reads a year of four digits, the report identifier is
  \<open>HAZ\<close>, the date in eight digits, a hyphen and the time of day in six digits, so it
  matches \<open>HAZ\d{8}-\d{6}\<close>; the validation error is not shown; and when \<open>save_image\<close>
  returns and the append does not fail, the run succeeds, shows this identifier and
  appends the row that starts with it.
\<close>

theorem valid_form_gets_report_id:
  assumes "valid_datetime now" "1000 \<le> year now"
    and "submitted form" "specific_area form \<noteq> []" "description form \<noteq> []"
  shows "matches_report_id_pattern (report_id_of now) \<and>
         report_id_of now = ''HAZ'' @ dec (year now) @ zpad 2 (month now) @ zpad 2 (day now)
            @ ''-'' @ zpad 2 (hour now) @ zpad 2 (minute now) @ zpad 2 (second now) \<and>
         StError VALIDATION_MESSAGE \<notin> set (messages_of (handle_submission flt now form s)) \<and>
         ((\<exists>ip. fst (save_image flt (uploaded_photo form) (report_id_of now) s) = Inr ip) \<and>
          \<not> to_csv_a_fails flt \<and> s REPORTS_CSV \<noteq> Some Dir \<longrightarrow>
            handle_submission flt now form s =
              (Inr (),
               [StSuccess SUCCESS_MESSAGE,
                StInfo (''Your Report ID is: **'' @ report_id_of now @ ''**'')],
               (with_image now form s)(REPORTS_CSV \<mapsto>
                  File (file_content s REPORTS_CSV @ csv_row (expected_row now form)))) \<and>
            hd (expected_row now form) = report_id_of now)"
proof (intro conjI impI)
  show "matches_report_id_pattern (report_id_of now)"
    using assms(1,2) by (rule report_id_matches)
  show "report_id_of now = ''HAZ'' @ dec (year now) @ zpad 2 (month now) @ zpad 2 (day now)
            @ ''-'' @ zpad 2 (hour now) @ zpad 2 (minute now) @ zpad 2 (second now)"
    by (rule report_id_of_expand)
  show "StError VALIDATION_MESSAGE \<notin> set (messages_of (handle_submission flt now form s))"
    using assms(3-5) by (rule valid_shows_no_validation_error)
  show "hd (expected_row now form) = report_id_of now"
    by (simp add: expected_row_def)
  assume io: "(\<exists>ip. fst (save_image flt (uploaded_photo form) (report_id_of now) s) = Inr ip) \<and>
          \<not> to_csv_a_fails flt \<and> s REPORTS_CSV \<noteq> Some Dir"
  then obtain ip where "fst (save_image flt (uploaded_photo form) (report_id_of now) s) = Inr ip"
    by blast
  then have "succeeded (handle_submission flt now form s)"
    using assms(3-5) io by (intro submission_succeeds) simp_all
  then show "handle_submission flt now form s =
              (Inr (),
               [StSuccess SUCCESS_MESSAGE,
                StInfo (''Your Report ID is: **'' @ report_id_of now @ ''**'')],
               (with_image now form s)(REPORTS_CSV \<mapsto>
                  File (file_content s REPORTS_CSV @ csv_row (expected_row now form))))"
    using handle_submission_success by blast
qed

theorem valid_form_gets_report_id_witness:
  "valid_datetime example_time \<and> 1000 \<le> year example_time \<and> submitted example_form \<and>
   specific_area example_form \<noteq> [] \<and> description example_form \<noteq> [] \<and>
   (\<exists>ip. fst (save_image no_faults (uploaded_photo example_form) (report_id_of example_time)
             Map.empty) = Inr ip) \<and>
   \<not> to_csv_a_fails no_faults \<and> Map.empty REPORTS_CSV \<noteq> Some Dir \<and>
   matches_report_id_pattern (report_id_of example_time) \<and>
   report_id_of example_time = ''HAZ20250307-090500'' \<and>
   messages_of (handle_submission no_faults example_time example_form Map.empty) =
     [StSuccess SUCCESS_MESSAGE, StInfo ''Your Report ID is: **HAZ20250307-090500**'']"
proof -
  have h1: "1000 \<le> year example_time" by (simp add: example_time_def)
  have h2: "submitted example_form" and h3: "specific_area example_form \<noteq> []"
    and h4: "description example_form \<noteq> []"
    by (simp_all add: example_form_def)
  have io: "(\<exists>ip. fst (save_image no_faults (uploaded_photo example_form)
               (report_id_of example_time) Map.empty) = Inr ip) \<and>
            \<not> to_csv_a_fails no_faults \<and> Map.empty REPORTS_CSV \<noteq> Some Dir"
    by (simp add: example_form_def save_image_None no_faults_def)
  note t = valid_form_gets_report_id [OF example_time_valid h1 h2 h3 h4, of no_faults Map.empty]
  have m: "matches_report_id_pattern (report_id_of example_time)"
    using t by (rule conjunct1)
  have "handle_submission no_faults example_time example_form Map.empty =
          (Inr (),
           [StSuccess SUCCESS_MESSAGE,
            StInfo (''Your Report ID is: **'' @ report_id_of example_time @ ''**'')],
           (with_image example_time example_form Map.empty)(REPORTS_CSV \<mapsto>
              File (file_content Map.empty REPORTS_CSV @
                    csv_row (expected_row example_time example_form))))"
    using t io by blast
  then have "messages_of (handle_submission no_faults example_time example_form Map.empty) =
     [StSuccess SUCCESS_MESSAGE, StInfo ''Your Report ID is: **HAZ20250307-090500**'']"
    by (simp add: messages_of_def report_id_example)
  then show ?thesis
    using example_time_valid h1 h2 h3 h4 io m report_id_example by simp
qed

subsection \<open>C8: identifiers within one second\<close>

lemma report_id_same_second: "same_second t1 t2 \<Longrightarrow> report_id_of t1 = report_id_of t2"
  by (simp add: report_id_of_expand same_second_def)

lemma splitext_png: "splitext (a # ''.png'') = ([a], ''.png'')" if "a \<noteq> CHR ''/''" "a \<noteq> CHR ''.''"
  using that by (simp add: splitext_def rfind_def splitext_loop.simps)

lemma splitext_jpg: "splitext (a # ''.jpg'') = ([a], ''.jpg'')" if "a \<noteq> CHR ''/''" "a \<noteq> CHR ''.''"
  using that by (simp add: splitext_def rfind_def splitext_loop.simps)

lemma later_time_same_second: "same_second example_time later_time"
  by (simp add: same_second_def later_time_def)

lemma report_id_later: "report_id_of later_time = ''HAZ20250307-090500''"
  using report_id_same_second [OF later_time_same_second] report_id_example by simp

text \<open>
  C8, as stated: two assemblies within one second give equal identifiers, and the image
  of the second is written to the path of the first. The path also holds the extension
  of the original file name: a \<open>.png\<close> and a \<open>.jpg\<close> of the same second go to two paths.
\<close>

theorem same_second_images_may_differ_in_path:
  "\<not> (same_second example_time later_time \<longrightarrow>
        report_id_of example_time = report_id_of later_time \<and>
        fst (save_image no_faults (Some png_file) (report_id_of example_time) uploads_only) =
        fst (save_image no_faults (Some jpg_file) (report_id_of later_time) uploads_only))"
proof -
  have "fst (save_image no_faults (Some png_file) (report_id_of example_time) uploads_only)
          = Inr (Some ''uploads/HAZ20250307-090500.png'')"
    using save_image_Some [of no_faults png_file example_time uploads_only]
    by (simp add: report_id_example png_file_def splitext_png no_faults_def
                  uploads_only_def UPLOADS_DIR_def Let_def NAME_MAX_def)
  moreover have "fst (save_image no_faults (Some jpg_file) (report_id_of later_time) uploads_only)
          = Inr (Some ''uploads/HAZ20250307-090500.jpg'')"
    using save_image_Some [of no_faults jpg_file later_time uploads_only]
    by (simp add: report_id_later jpg_file_def splitext_jpg no_faults_def
                  uploads_only_def UPLOADS_DIR_def Let_def NAME_MAX_def)
  ultimately show ?thesis using later_time_same_second by simp
qed

text \<open>
  C8, amended. The report identifier depends on nothing but the time, to the second:
  two assemblies whose times fall within the same second produce equal identifiers,
  and nothing compares them with the identifiers in use. When the original file names
  of their photos have the same extension, the second image is written to the path of
  the first and replaces its content; when the extensions differ, the two images go to
  different paths.
\<close>

theorem same_second_same_report_id:
  assumes "same_second t1 t2"
  shows "report_id_of t1 = report_id_of t2 \<and>
         (snd (splitext (name uf1)) = snd (splitext (name uf2)) \<and>
          save_image flt1 (Some uf1) (report_id_of t1) s = (Inr ip1, s1) \<and>
          save_image flt2 (Some uf2) (report_id_of t2) s1 = (Inr ip2, s2) \<longrightarrow>
            ip2 = ip1 \<and>
            ip1 = Some (''uploads/'' @ report_id_of t1 @ snd (splitext (name uf1))) \<and>
            s2 = s(''uploads/'' @ report_id_of t1 @ snd (splitext (name uf1)) \<mapsto>
                     File (getbuffer uf2))) \<and>
         (snd (splitext (name uf1)) \<noteq> snd (splitext (name uf2)) \<longrightarrow>
            path_join UPLOADS_DIR (report_id_of t1 @ snd (splitext (name uf1))) \<noteq>
            path_join UPLOADS_DIR (report_id_of t2 @ snd (splitext (name uf2))))"
proof (intro conjI impI)
  show id: "report_id_of t1 = report_id_of t2"
    using assms by (rule report_id_same_second)
  assume h: "snd (splitext (name uf1)) = snd (splitext (name uf2)) \<and>
          save_image flt1 (Some uf1) (report_id_of t1) s = (Inr ip1, s1) \<and>
          save_image flt2 (Some uf2) (report_id_of t2) s1 = (Inr ip2, s2)"
  from h have a: "ip1 = Some (''uploads/'' @ report_id_of t1 @ snd (splitext (name uf1))) \<and>
       s1 = s(''uploads/'' @ report_id_of t1 @ snd (splitext (name uf1)) \<mapsto> File (getbuffer uf1))"
    using save_image_Inr [of flt1 "Some uf1" t1 s ip1 s1] by simp
  from h have b: "ip2 = Some (''uploads/'' @ report_id_of t2 @ snd (splitext (name uf2))) \<and>
       s2 = s1(''uploads/'' @ report_id_of t2 @ snd (splitext (name uf2)) \<mapsto> File (getbuffer uf2))"
    using save_image_Inr [of flt2 "Some uf2" t2 s1 ip2 s2] by simp
  show "ip2 = ip1" using a b h id by simp
  show "ip1 = Some (''uploads/'' @ report_id_of t1 @ snd (splitext (name uf1)))" using a by simp
  show "s2 = s(''uploads/'' @ report_id_of t1 @ snd (splitext (name uf1)) \<mapsto> File (getbuffer uf2))"
    using a b h id by simp
next
  assume "snd (splitext (name uf1)) \<noteq> snd (splitext (name uf2))"
  then show "path_join UPLOADS_DIR (report_id_of t1 @ snd (splitext (name uf1))) \<noteq>
             path_join UPLOADS_DIR (report_id_of t2 @ snd (splitext (name uf2)))"
    using report_id_same_second [OF assms] by (simp add: path_join_report_id)
qed

theorem same_second_same_report_id_witness:
  "same_second example_time later_time \<and>
   report_id_of example_time = report_id_of later_time \<and>
   snd (splitext (name png_file)) = snd (splitext (name png_file2)) \<and>
   save_image no_faults (Some png_file) (report_id_of example_time) uploads_only =
     (Inr (Some ''uploads/HAZ20250307-090500.png''),
      uploads_only(''uploads/HAZ20250307-090500.png'' \<mapsto> File ''abc'')) \<and>
   save_image no_faults (Some png_file2) (report_id_of later_time)
       (uploads_only(''uploads/HAZ20250307-090500.png'' \<mapsto> File ''abc'')) =
     (Inr (Some ''uploads/HAZ20250307-090500.png''),
      uploads_only(''uploads/HAZ20250307-090500.png'' \<mapsto> File ''xyz''))"
proof -
  have e: "snd (splitext (name png_file)) = snd (splitext (name png_file2))"
    by (simp add: png_file_def png_file2_def splitext_png)
  have s1: "save_image no_faults (Some png_file) (report_id_of example_time) uploads_only =
     (Inr (Some ''uploads/HAZ20250307-090500.png''),
      uploads_only(''uploads/HAZ20250307-090500.png'' \<mapsto> File ''abc''))"
    using save_image_Some [of no_faults png_file example_time uploads_only]
    by (simp add: report_id_example png_file_def splitext_png no_faults_def
                  uploads_only_def UPLOADS_DIR_def Let_def NAME_MAX_def)
  have s2: "save_image no_faults (Some png_file2) (report_id_of later_time)
       (uploads_only(''uploads/HAZ20250307-090500.png'' \<mapsto> File ''abc'')) =
     (Inr (Some ''uploads/HAZ20250307-090500.png''),
      uploads_only(''uploads/HAZ20250307-090500.png'' \<mapsto> File ''xyz''))"
    using save_image_Some [of no_faults png_file2 later_time
             "uploads_only(''uploads/HAZ20250307-090500.png'' \<mapsto> File ''abc'')"]
    by (simp add: report_id_later png_file2_def splitext_png no_faults_def
                  uploads_only_def UPLOADS_DIR_def Let_def NAME_MAX_def)
  show ?thesis
    using later_time_same_second e s1 s2
      same_second_same_report_id [OF later_time_same_second, of png_file png_file2 no_faults
        uploads_only "Some ''uploads/HAZ20250307-090500.png''"
        "uploads_only(''uploads/HAZ20250307-090500.png'' \<mapsto> File ''abc'')"
        no_faults "Some ''uploads/HAZ20250307-090500.png''"
        "uploads_only(''uploads/HAZ20250307-090500.png'' \<mapsto> File ''xyz'')"]
    by simp
qed

subsection \<open>C4: the image reference of a stored report\<close>

text \<open>
  C4. For every successful submission, the appended row has eight columns, the last of
  them \<open>ImagePath\<close>. If a photo was attached, that column is the path of the image
  directory joined with the report identifier followed by the extension of the original
  file name, and after the run this path holds a file with the bytes of the photo,
  directly inside the image directory. If no photo was attached, the column is the
  string \<open>N/A\<close> and nothing but the log has changed.
\<close>

theorem image_path_of_successful_submission:
  assumes "succeeded (handle_submission flt now form s)"
  shows "\<exists>row.
           state_of (handle_submission flt now form s) REPORTS_CSV =
             Some (File (file_content s REPORTS_CSV @ csv_row row)) \<and>
           length row = length COLUMNS \<and> COLUMNS ! 7 = ''ImagePath'' \<and>
           (case uploaded_photo form of
              Some uf \<Rightarrow>
                row ! 7 = path_join UPLOADS_DIR (report_id_of now @ snd (splitext (name uf))) \<and>
                row ! 7 = UPLOADS_DIR @ ''/'' @ report_id_of now @ snd (splitext (name uf)) \<and>
                CHR ''/'' \<notin> set (report_id_of now @ snd (splitext (name uf))) \<and>
                state_of (handle_submission flt now form s) UPLOADS_DIR = Some Dir \<and>
                state_of (handle_submission flt now form s) (row ! 7) = Some (File (getbuffer uf))
            | None \<Rightarrow>
                row ! 7 = ''N/A'' \<and>
                (\<forall>p. p \<noteq> REPORTS_CSV \<longrightarrow> state_of (handle_submission flt now form s) p = s p))"
proof -
  note hs = handle_submission_success [OF assms]
  have st: "state_of (handle_submission flt now form s) =
              (with_image now form s)(REPORTS_CSV \<mapsto>
                 File (file_content s REPORTS_CSV @ csv_row (expected_row now form)))"
    using hs by (simp add: state_of_def)
  have col: "expected_row now form ! 7 = image_ref now form" by (simp add: expected_row_def)
  have rest: "(case uploaded_photo form of
              Some uf \<Rightarrow>
                expected_row now form ! 7 = path_join UPLOADS_DIR (report_id_of now @ snd (splitext (name uf))) \<and>
                expected_row now form ! 7 = UPLOADS_DIR @ ''/'' @ report_id_of now @ snd (splitext (name uf)) \<and>
                CHR ''/'' \<notin> set (report_id_of now @ snd (splitext (name uf))) \<and>
                state_of (handle_submission flt now form s) UPLOADS_DIR = Some Dir \<and>
                state_of (handle_submission flt now form s) (expected_row now form ! 7) = Some (File (getbuffer uf))
            | None \<Rightarrow>
                expected_row now form ! 7 = ''N/A'' \<and>
                (\<forall>p. p \<noteq> REPORTS_CSV \<longrightarrow> state_of (handle_submission flt now form s) p = s p))"
  proof (cases "uploaded_photo form")
    case None
    then show ?thesis by (simp add: col st image_ref_def with_image_def)
  next
    case (Some uf)
    obtain r s1 where si: "save_image flt (Some uf) (report_id_of now) s = (r, s1)"
      by (cases "save_image flt (Some uf) (report_id_of now) s") auto
    then have "r = Inr (Some (image_ref now form))" using hs Some by simp
    then have up: "s UPLOADS_DIR = Some Dir"
      using save_image_Inr [of flt "Some uf" now s "Some (image_ref now form)" s1] si by simp
    show ?thesis
      using Some up
      by (simp add: col st image_ref_def with_image_def path_join_report_id
                    path_join_report_id [unfolded UPLOADS_DIR_def] report_id_no_sep
                    splitext_no_sep UPLOADS_DIR_def REPORTS_CSV_def)
  qed
  show ?thesis
    using st rest expected_row_length [of now form]
    by (intro exI [of _ "expected_row now form"] conjI) (simp_all add: COLUMNS_def)
qed

lemma splitext_spill: "splitext ''spill.png'' = (''spill'', ''.png'')"
  by (simp add: splitext_def rfind_def splitext_loop.simps)

lemma photo_form_succeeds:
  "succeeded (handle_submission no_faults example_time photo_form uploads_only)"
proof (rule submission_succeeds)
  show "submitted photo_form" "specific_area photo_form \<noteq> []" "description photo_form \<noteq> []"
    by (simp_all add: photo_form_def)
  have p: "uploaded_photo photo_form = Some \<lparr>name = ''spill.png'', getbuffer = ''abc''\<rparr>"
    by (simp add: photo_form_def)
  show "fst (save_image no_faults (uploaded_photo photo_form) (report_id_of example_time)
          uploads_only) = Inr (Some (''uploads/'' @ report_id_of example_time @ ''.png''))"
    unfolding p
    using save_image_Some [of no_faults "\<lparr>name = ''spill.png'', getbuffer = ''abc''\<rparr>"
            example_time uploads_only]
    by (simp add: Let_def splitext_spill report_id_example no_faults_def uploads_only_def UPLOADS_DIR_def
                  NAME_MAX_def)
  show "\<not> to_csv_a_fails no_faults" by (simp add: no_faults_def)
  show "uploads_only REPORTS_CSV \<noteq> Some Dir"
    by (simp add: uploads_only_def UPLOADS_DIR_def REPORTS_CSV_def)
qed

theorem image_path_of_successful_submission_witness:
  "succeeded (handle_submission no_faults example_time photo_form uploads_only) \<and>
   (\<exists>row.
      state_of (handle_submission no_faults example_time photo_form uploads_only) REPORTS_CSV =
        Some (File (file_content uploads_only REPORTS_CSV @ csv_row row)) \<and>
      length row = length COLUMNS \<and> COLUMNS ! 7 = ''ImagePath'' \<and>
      (case uploaded_photo photo_form of
         Some uf \<Rightarrow>
           row ! 7 = path_join UPLOADS_DIR (report_id_of example_time @ snd (splitext (name uf))) \<and>
           row ! 7 = UPLOADS_DIR @ ''/'' @ report_id_of example_time @ snd (splitext (name uf)) \<and>
           CHR ''/'' \<notin> set (report_id_of example_time @ snd (splitext (name uf))) \<and>
           state_of (handle_submission no_faults example_time photo_form uploads_only) UPLOADS_DIR
             = Some Dir \<and>
           state_of (handle_submission no_faults example_time photo_form uploads_only) (row ! 7)
             = Some (File (getbuffer uf))
       | None \<Rightarrow>
           row ! 7 = ''N/A'' \<and>
           (\<forall>p. p \<noteq> REPORTS_CSV \<longrightarrow>
              state_of (handle_submission no_faults example_time photo_form uploads_only) p
                = uploads_only p)))"
  using photo_form_succeeds image_path_of_successful_submission [OF photo_form_succeeds]
  by blast

subsection \<open>Reading back what \<open>to_csv\<close> wrote\<close>

lemma csv_read_quoted_body:
  "csv_read InQuoted fld row (double_quotes f @ CHR 0x22 # rest)
     = csv_read QuoteInQuoted (fld @ f) row rest"
  by (induction f arbitrary: fld) auto

lemma csv_read_plain_body:
  "\<not> list_ex special_char f \<Longrightarrow> CHR 0x0D \<notin> set f \<Longrightarrow>
   csv_read InField fld row (f @ rest) = csv_read InField (fld @ f) row rest"
  by (induction f arbitrary: fld) (auto simp: special_char_def)

lemma csv_read_plain_start:
  "\<not> list_ex special_char f \<Longrightarrow> CHR 0x0D \<notin> set f \<Longrightarrow> f \<noteq> [] \<Longrightarrow>
   csv_read StartField [] row (f @ rest) = csv_read InField f row rest"
proof (cases f)
  case Nil
  assume "f \<noteq> []" with Nil show ?thesis by simp
next
  case (Cons c cs)
  assume "\<not> list_ex special_char f" and "CHR 0x0D \<notin> set f"
  then have c: "\<not> special_char c" "c \<noteq> CHR 0x0D"
    and cs: "\<not> list_ex special_char cs" "CHR 0x0D \<notin> set cs"
    using Cons by auto
  have "csv_read StartField [] row ((c # cs) @ rest) = csv_read InField [c] row (cs @ rest)"
    using c by (simp add: special_char_def)
  also have "\<dots> = csv_read InField ([c] @ cs) row rest"
    using cs by (rule csv_read_plain_body)
  finally show ?thesis using Cons by simp
qed

lemma reads_back_plain:
  "reads_back f \<Longrightarrow> \<not> needs_quote f \<Longrightarrow> \<not> list_ex special_char f \<and> CHR 0x0D \<notin> set f"
  by (auto simp: reads_back_def needs_quote_def)

lemma csv_read_field_comma:
  assumes "reads_back f"
  shows "csv_read StartField [] row (csv_field f @ CHR '','' # rest)
           = csv_read StartField [] (row @ [f]) rest"
proof (cases "needs_quote f")
  case True
  then show ?thesis by (simp add: csv_field_def csv_read_quoted_body)
next
  case False
  note plain = reads_back_plain [OF assms False]
  show ?thesis
  proof (cases "f = []")
    case True
    then show ?thesis using False by (simp add: csv_field_def)
  next
    case ne: False
    have "csv_read StartField [] row (f @ CHR '','' # rest)
            = csv_read InField f row (CHR '','' # rest)"
      using plain ne by (intro csv_read_plain_start) simp_all
    then show ?thesis using False by (simp add: csv_field_def)
  qed
qed

lemma csv_read_field_newline:
  assumes "reads_back f" "row \<noteq> [] \<or> f \<noteq> []"
  shows "csv_read StartField [] row (csv_field f @ CHR 0x0A # rest)
           = (row @ [f]) # csv_read StartField [] [] rest"
proof (cases "needs_quote f")
  case True
  then show ?thesis by (simp add: csv_field_def csv_read_quoted_body)
next
  case False
  note plain = reads_back_plain [OF assms(1) False]
  show ?thesis
  proof (cases "f = []")
    case True
    then show ?thesis using False assms(2) by (simp add: csv_field_def)
  next
    case ne: False
    have "csv_read StartField [] row (f @ CHR 0x0A # rest)
            = csv_read InField f row (CHR 0x0A # rest)"
      using plain ne by (intro csv_read_plain_start) simp_all
    then show ?thesis using False by (simp add: csv_field_def)
  qed
qed

lemma csv_read_fields:
  assumes "fs \<noteq> []" "row \<noteq> [] \<or> fs \<noteq> [[]]" "list_all reads_back fs"
  shows "csv_read StartField [] row (join_fields (map csv_field fs) @ CHR 0x0A # rest)
           = (row @ fs) # csv_read StartField [] [] rest"
  using assms
proof (induction fs arbitrary: row)
  case Nil
  then show ?case by simp
next
  case (Cons f fs)
  have f: "reads_back f" and fs: "list_all reads_back fs" using Cons.prems(3) by simp_all
  show ?case
  proof (cases fs)
    case Nil
    then show ?thesis using Cons.prems(2) f by (simp add: csv_read_field_newline)
  next
    case (Cons g gs)
    have "csv_read StartField [] row (join_fields (map csv_field (f # g # gs)) @ CHR 0x0A # rest)
            = csv_read StartField [] (row @ [f])
                (join_fields (map csv_field (g # gs)) @ CHR 0x0A # rest)"
      using f by (simp add: csv_read_field_comma)
    also have "\<dots> = ((row @ [f]) @ g # gs) # csv_read StartField [] [] rest"
      using Cons.IH [of "row @ [f]"] Cons fs by simp
    finally show ?thesis using Cons by simp
  qed
qed

lemma csv_read_row:
  assumes "fs \<noteq> []" "list_all reads_back fs"
  shows "csv_read StartField [] [] (csv_row fs @ rest) = fs # csv_read StartField [] [] rest"
proof (cases "fs = [[]]")
  case True
  then show ?thesis by (simp add: csv_row_def)
next
  case False
  then show ?thesis
    using assms csv_read_fields [of fs "[]" rest] by (simp add: csv_row_def)
qed

lemma read_csv_rows:
  "[] \<notin> set rs \<Longrightarrow> list_all (list_all reads_back) rs \<Longrightarrow>
   read_csv (concat (map csv_row rs)) = rs"
  by (induction rs) (auto simp: read_csv_def csv_read_row)

lemma columns_read_back: "COLUMNS \<noteq> [] \<and> list_all reads_back COLUMNS"
  by (simp add: COLUMNS_def reads_back_def)

lemma read_csv_log:
  assumes "[] \<notin> set rs" "list_all (list_all reads_back) rs"
  shows "read_csv (csv_row COLUMNS @ concat (map csv_row rs)) = COLUMNS # rs"
proof -
  have "read_csv (csv_row COLUMNS @ concat (map csv_row rs))
          = COLUMNS # read_csv (concat (map csv_row rs))"
    using columns_read_back by (simp add: read_csv_def csv_read_row)
  then show ?thesis using assms by (simp add: read_csv_rows)
qed

subsection \<open>C2: the log after successful submissions\<close>

lemma main_succeeded:
  assumes "succeeded (main flt now form s)"
  shows "fst (initialize_storage flt s) = Inr () \<and>
         succeeded (handle_submission flt now form (snd (initialize_storage flt s))) \<and>
         state_of (main flt now form s)
           = state_of (handle_submission flt now form (snd (initialize_storage flt s)))"
  using assms
  by (cases "initialize_storage flt s")
     (auto simp: main_unfold succeeded_def messages_of_def state_of_def logo_messages_def
           split: sum.splits if_splits)

lemma initialize_storage_log:
  assumes "fst (initialize_storage flt s) = Inr ()"
  shows "log_holds s rs \<Longrightarrow> log_holds (snd (initialize_storage flt s)) rs"
    and "s REPORTS_CSV = None \<Longrightarrow> log_holds (snd (initialize_storage flt s)) []"
  using assms
  by (auto simp: initialize_storage_cases Let_def log_holds_def UPLOADS_DIR_def REPORTS_CSV_def
           split: if_splits)

lemma main_success_log:
  assumes "succeeded (main flt now form s)"
    and "log_holds s rs \<or> (s REPORTS_CSV = None \<and> rs = [])"
  shows "log_holds (state_of (main flt now form s)) (rs @ [expected_row now form])"
proof -
  let ?s1 = "snd (initialize_storage flt s)"
  note m = main_succeeded [OF assms(1)]
  have l1: "log_holds ?s1 rs"
    using assms(2) m initialize_storage_log [of flt s] by auto
  have "state_of (main flt now form s) =
          (with_image now form ?s1)(REPORTS_CSV \<mapsto>
             File (file_content ?s1 REPORTS_CSV @ csv_row (expected_row now form)))"
    using m handle_submission_success [of flt now form ?s1] by (simp add: state_of_def)
  then show ?thesis using l1 by (simp add: log_holds_def file_content_def)
qed

lemma expected_row_nonempty: "expected_row now form \<noteq> []"
  by (simp add: expected_row_def)

lemma log_holds_read:
  "log_holds s rs \<Longrightarrow> [] \<notin> set rs \<Longrightarrow> list_all (list_all reads_back) rs \<Longrightarrow>
   read_log s = Some (COLUMNS # rs)"
  by (simp add: log_holds_def read_log_def read_csv_log)

lemma runs_log:
  assumes "log_holds s old \<or> (s REPORTS_CSV = None \<and> old = [] \<and> runs \<noteq> [])"
    and "all_succeed runs s"
  shows "log_holds (run_all runs s) (old @ map (\<lambda>(flt, now, form). expected_row now form) runs)"
  using assms
proof (induction runs arbitrary: s old)
  case Nil
  then show ?case by simp
next
  case (Cons r runs)
  obtain flt now form where r: "r = (flt, now, form)" by (cases r) auto
  have ok: "succeeded (main flt now form s)"
    and rest: "all_succeed runs (state_of (main flt now form s))"
    using Cons.prems(2) r by simp_all
  have "log_holds s old \<or> (s REPORTS_CSV = None \<and> old = [])" using Cons.prems(1) by auto
  then have "log_holds (state_of (main flt now form s)) (old @ [expected_row now form])"
    using ok by (intro main_success_log)
  then have "log_holds (run_all runs (state_of (main flt now form s)))
               ((old @ [expected_row now form]) @ map (\<lambda>(flt, now, form). expected_row now form) runs)"
    using rest by (intro Cons.IH) simp_all
  then show ?case using r by simp
qed

lemma main_succeeds:
  assumes v: "submitted form" "specific_area form \<noteq> []" "description form \<noteq> []"
    and up: "s UPLOADS_DIR = None \<or> s UPLOADS_DIR = Some Dir"
    and log: "s REPORTS_CSV \<noteq> Some Dir"
    and img: "uploaded_photo form = None \<or> s (image_ref now form) \<noteq> Some Dir"
    and nm: "\<And>uf. uploaded_photo form = Some uf \<Longrightarrow>
               CHR 0x00 \<notin> set (snd (splitext (name uf))) \<and>
               length (report_id_of now @ snd (splitext (name uf))) \<le> NAME_MAX"
  shows "succeeded (main no_faults now form s)"
proof -
  let ?s1 = "snd (initialize_storage no_faults s)"
  have i: "fst (initialize_storage no_faults s) = Inr ()"
    by (simp add: initialize_storage_cases no_faults_def Let_def)
  have up1: "?s1 UPLOADS_DIR = Some Dir"
    using up by (auto simp: initialize_storage_cases no_faults_def Let_def UPLOADS_DIR_def
                            REPORTS_CSV_def)
  have log1: "?s1 REPORTS_CSV \<noteq> Some Dir"
    using log by (auto simp: initialize_storage_cases no_faults_def Let_def UPLOADS_DIR_def
                             REPORTS_CSV_def)
  have img1: "uploaded_photo form = None \<or> ?s1 (image_ref now form) \<noteq> Some Dir"
  proof (cases "uploaded_photo form")
    case None
    then show ?thesis by simp
  next
    case (Some uf)
    then have "s (image_ref now form) \<noteq> Some Dir" using img by simp
    then show ?thesis
      using Some
      by (auto simp: initialize_storage_cases no_faults_def Let_def UPLOADS_DIR_def
                     REPORTS_CSV_def image_ref_def)
  qed
  have "\<exists>ip. fst (save_image no_faults (uploaded_photo form) (report_id_of now) ?s1) = Inr ip"
  proof (cases "uploaded_photo form")
    case None
    then show ?thesis by (simp add: save_image_None)
  next
    case (Some uf)
    then show ?thesis
      using up1 img1 nm [OF Some]
      by (simp add: save_image_Some Let_def image_ref_def no_faults_def)
  qed
  then obtain ip where
    "fst (save_image no_faults (uploaded_photo form) (report_id_of now) ?s1) = Inr ip"
    by blast
  then have "succeeded (handle_submission no_faults now form ?s1)"
    using v log1 by (intro submission_succeeds) (simp_all add: no_faults_def)
  then show ?thesis
    using i
    by (cases "initialize_storage no_faults s")
       (auto simp: main_unfold succeeded_def messages_of_def)
qed

lemma main_success_state:
  assumes "succeeded (main flt now form s)"
  shows "state_of (main flt now form s) =
           (with_image now form (snd (initialize_storage flt s)))(REPORTS_CSV \<mapsto>
              File (file_content (snd (initialize_storage flt s)) REPORTS_CSV @
                    csv_row (expected_row now form)))"
  using main_succeeded [OF assms]
    handle_submission_success [of flt now form "snd (initialize_storage flt s)"]
  by (simp add: state_of_def)

lemma example_runs_succeed: "all_succeed example_runs Map.empty"
proof -
  have a: "succeeded (main no_faults example_time example_form Map.empty)"
    by (rule main_succeeds) (simp_all add: example_form_def)
  let ?s1 = "state_of (main no_faults example_time example_form Map.empty)"
  have s1: "?s1 = [UPLOADS_DIR \<mapsto> Dir,
                   REPORTS_CSV \<mapsto> File (csv_row COLUMNS @ csv_row (expected_row example_time example_form))]"
    unfolding main_success_state [OF a]
    by (simp add: initialize_storage_cases no_faults_def Let_def with_image_def example_form_def
                  file_content_def UPLOADS_DIR_def REPORTS_CSV_def)
  have "succeeded (main no_faults later_time photo_form ?s1)"
    unfolding s1
    by (rule main_succeeds)
       (simp_all add: photo_form_def image_ref_def UPLOADS_DIR_def REPORTS_CSV_def splitext_spill
                      report_id_later NAME_MAX_def)
  then show ?thesis using a by (simp add: example_runs_def)
qed

lemma timestamp_chars:
  assumes "c \<in> set (strftime t ''%Y-%m-%d %H:%M:%S'')"
  shows "is_digit c \<or> c \<in> set ''- :''"
proof -
  have "strftime t ''%Y-%m-%d %H:%M:%S'' =
          dec (year t) @ ''-'' @ zpad 2 (month t) @ ''-'' @ zpad 2 (day t) @ '' '' @
          zpad 2 (hour t) @ '':'' @ zpad 2 (minute t) @ '':'' @ zpad 2 (second t)"
    by (simp add: directive_def)
  then show ?thesis
    using assms dec_digits [of "year t"] zpad_digits [of 2]
    by (auto simp: list_all_iff)
qed

lemma cr_free_reads_back: "CHR 0x0D \<notin> set f \<Longrightarrow> reads_back f"
  by (simp add: reads_back_def)

lemma splitext_ext_subset: "set (snd (splitext p)) \<subseteq> set p"
  using splitext_snd_cases [of p] by (auto dest: in_set_dropD)

text \<open>A row reads back when the form and the name of the photo hold no carriage return.\<close>

lemma expected_row_reads_back:
  assumes "CHR 0x0D \<notin> set (employee_id form)" "CHR 0x0D \<notin> set (entity form)"
    and "CHR 0x0D \<notin> set (specific_area form)" "CHR 0x0D \<notin> set (urgency form)"
    and "CHR 0x0D \<notin> set (description form)"
    and "\<And>uf. uploaded_photo form = Some uf \<Longrightarrow> CHR 0x0D \<notin> set (name uf)"
  shows "list_all reads_back (expected_row now form)"
proof -
  have ts: "CHR 0x0D \<notin> set (strftime now ''%Y-%m-%d %H:%M:%S'')"
    using timestamp_chars [of "CHR 0x0D" now] by (auto simp: is_digit_def)
  have tag: "CHR 0x0D \<notin> set (takeWhile (\<lambda>c. c \<noteq> CHR '' '') (urgency form))"
    using assms(4) by (meson set_takeWhileD)
  have img: "CHR 0x0D \<notin> set (image_ref now form)"
  proof (cases "uploaded_photo form")
    case None
    then show ?thesis by (simp add: image_ref_def)
  next
    case (Some uf)
    have "CHR 0x0D \<notin> set (snd (splitext (name uf)))"
      using assms(6) [OF Some] splitext_ext_subset [of "name uf"] by blast
    then show ?thesis using Some by (simp add: image_ref_def report_id_no_cr)
  qed
  show ?thesis
    using assms(1,2,3,5) ts tag img
    by (simp add: expected_row_def cr_free_reads_back report_id_no_cr)
qed

lemma cr_run_succeeds: "all_succeed cr_runs Map.empty"
proof -
  have "succeeded (main no_faults example_time cr_form Map.empty)"
    by (rule main_succeeds) (simp_all add: cr_form_def example_form_def)
  then show ?thesis by (simp add: cr_runs_def)
qed

lemma timestamp_example: "strftime example_time ''%Y-%m-%d %H:%M:%S'' = ''2025-03-07 09:05:00''"
  by (simp add: directive_def example_time_def zpad_def dec.simps digit_char_def)

text \<open>
  C2, as stated: N submissions that pass validation read back as N + 1 rows whose
  columns are the stored values. The writer does not quote a field for a carriage
  return, and the reader ends a row at one: a single successful submission whose
  description is \<open>a\<close>, a carriage return and \<open>b\<close> reads back as three rows, of eight,
  seven and two fields.
\<close>

theorem carriage_return_splits_a_row:
  "all_succeed cr_runs Map.empty \<and>
   read_log (run_all cr_runs Map.empty) =
     Some [COLUMNS,
           [''HAZ20250307-090500'', ''2025-03-07 09:05:00'', ''Anonymous'', ''Flour Mill'',
            ''Line 3 Wrapper'', YELLOW, ''a''],
           [''b'', ''N/A'']] \<and>
   map_option length (read_log (run_all cr_runs Map.empty)) \<noteq> Some (length cr_runs + 1) \<and>
   read_log (run_all cr_runs Map.empty) \<noteq> Some [COLUMNS, expected_row example_time cr_form]"
proof -
  have ok: "succeeded (main no_faults example_time cr_form Map.empty)"
    using cr_run_succeeds by (simp add: cr_runs_def)
  have row: "expected_row example_time cr_form =
               [''HAZ20250307-090500'', ''2025-03-07 09:05:00'', ''Anonymous'', ''Flour Mill'',
                ''Line 3 Wrapper'', YELLOW, ''a'' @ [CHR 0x0D] @ ''b'', ''N/A'']"
    unfolding expected_row_def report_id_example timestamp_example
    by (simp add: cr_form_def example_form_def image_ref_def YELLOW_def)
  have log: "run_all cr_runs Map.empty REPORTS_CSV =
               Some (File (csv_row COLUMNS @ csv_row (expected_row example_time cr_form)))"
  proof -
    have "run_all cr_runs Map.empty = state_of (main no_faults example_time cr_form Map.empty)"
      by (simp add: cr_runs_def)
    then show ?thesis
      unfolding main_success_state [OF ok]
      by (simp add: initialize_storage_cases no_faults_def Let_def file_content_def
                    UPLOADS_DIR_def REPORTS_CSV_def)
  qed
  have "read_csv (csv_row COLUMNS @ csv_row (expected_row example_time cr_form)) =
          COLUMNS # read_csv (csv_row (expected_row example_time cr_form))"
    using columns_read_back by (simp add: read_csv_def csv_read_row)
  moreover have "read_csv (csv_row (expected_row example_time cr_form)) =
          [[''HAZ20250307-090500'', ''2025-03-07 09:05:00'', ''Anonymous'', ''Flour Mill'',
            ''Line 3 Wrapper'', YELLOW, ''a''],
           [''b'', ''N/A'']]"
    unfolding row
    by (simp add: read_csv_def csv_row_def csv_field_def needs_quote_def special_char_def
                  YELLOW_def)
  ultimately have r: "read_log (run_all cr_runs Map.empty) =
     Some [COLUMNS,
           [''HAZ20250307-090500'', ''2025-03-07 09:05:00'', ''Anonymous'', ''Flour Mill'',
            ''Line 3 Wrapper'', YELLOW, ''a''],
           [''b'', ''N/A'']]"
    by (simp add: read_log_def log)
  show ?thesis
    unfolding r using cr_run_succeeds by (simp add: cr_runs_def)
qed

text \<open>
  C2, amended. Start from a system without a log, or with a log that holds the header
  and rows written earlier. Let every stored value, of the earlier rows and of the
  submissions, hold no carriage return or be one that the writer quotes (it holds a
  comma, a double quote or a line feed). After any sequence of N runs that all succeed,
  reading the log back yields the header row, the earlier rows unchanged, and then one
  row per submission in order; each of these has the eight columns of the header and
  holds, in the order of the columns, the report identifier, the time stamp, the
  employee identifier (or \<open>Anonymous\<close>), the entity, the area, the urgency tag, the
  description and the image reference. From a fresh log these are N + 1 rows.
\<close>

theorem log_round_trip:
  assumes "log_holds s old \<or> (s REPORTS_CSV = None \<and> old = [] \<and> runs \<noteq> [])"
    and "[] \<notin> set old"
    and "all_succeed runs s"
    and "list_all (list_all reads_back) old"
    and "\<forall>(flt, now, form) \<in> set runs. list_all reads_back (expected_row now form)"
  shows "read_log (run_all runs s)
           = Some (COLUMNS # old @ map (\<lambda>(flt, now, form). expected_row now form) runs) \<and>
         map_option length (read_log (run_all runs s)) = Some (length old + length runs + 1) \<and>
         (\<forall>(flt, now, form) \<in> set runs.
            length (expected_row now form) = length COLUMNS \<and>
            (\<forall>tag ip. map fst (report_data_of now (report_id_of now) form tag ip) = COLUMNS))"
proof -
  let ?new = "map (\<lambda>(flt, now, form). expected_row now form) runs"
  have "log_holds (run_all runs s) (old @ ?new)"
    using assms(1,3) by (rule runs_log)
  moreover have "[] \<notin> set (old @ ?new)"
    using assms(2) expected_row_nonempty by (auto simp: eq_commute [of "[]"])
  moreover have "list_all (list_all reads_back) (old @ ?new)"
    using assms(4,5) by (auto simp: list_all_iff)
  ultimately have "read_log (run_all runs s) = Some (COLUMNS # old @ ?new)"
    by (rule log_holds_read)
  then show ?thesis
    by (auto simp: expected_row_length report_data_columns)
qed

theorem log_round_trip_witness:
  "(log_holds Map.empty [] \<or> (Map.empty REPORTS_CSV = None \<and> [] = [] \<and> example_runs \<noteq> [])) \<and>
   [] \<notin> set ([] :: string list list) \<and> all_succeed example_runs Map.empty \<and>
   list_all (list_all reads_back) [] \<and>
   list_all reads_back (expected_row example_time example_form) \<and>
   list_all reads_back (expected_row later_time photo_form) \<and>
   read_log (run_all example_runs Map.empty)
     = Some [COLUMNS, expected_row example_time example_form, expected_row later_time photo_form] \<and>
   map_option length (read_log (run_all example_runs Map.empty)) = Some 3"
proof -
  have h1: "log_holds Map.empty [] \<or> (Map.empty REPORTS_CSV = None \<and> [] = [] \<and> example_runs \<noteq> [])"
    by (simp add: example_runs_def)
  have h2: "[] \<notin> set ([] :: string list list)" by simp
  have h4: "list_all (list_all reads_back) []" by simp
  have a: "list_all reads_back (expected_row example_time example_form)"
    by (rule expected_row_reads_back) (simp_all add: example_form_def YELLOW_def)
  have b: "list_all reads_back (expected_row later_time photo_form)"
    by (rule expected_row_reads_back) (auto simp: photo_form_def RED_def)
  have h5: "\<forall>(flt, now, form) \<in> set example_runs. list_all reads_back (expected_row now form)"
    using a b by (simp add: example_runs_def)
  show ?thesis
    using h1 h2 h4 a b example_runs_succeed
      log_round_trip [OF h1 h2 example_runs_succeed h4 h5]
    by (simp add: example_runs_def)
qed

subsection \<open>C6: the log never points at a missing image\<close>

lemma files_kept_file: "files_kept s (s(p \<mapsto> File b))"
  by (simp add: files_kept_def)

lemma files_kept_dir: "s p = None \<Longrightarrow> files_kept s (s(p \<mapsto> Dir))"
  by (auto simp: files_kept_def)

lemma image_ref_ok_mono: "files_kept s s' \<Longrightarrow> image_ref_ok s r \<Longrightarrow> image_ref_ok s' r"
  by (fastforce simp: files_kept_def image_ref_ok_def split: option.splits node.splits)

lemma refs_ok_mono:
  "files_kept s s' \<Longrightarrow> list_all (image_ref_ok s) rs \<Longrightarrow> list_all (image_ref_ok s') rs"
  by (auto simp: list_all_iff intro: image_ref_ok_mono)

lemma inv_same_log:
  assumes "log_invariant s" "files_kept s s'" "s' REPORTS_CSV = s REPORTS_CSV"
  shows "log_invariant s'"
  using assms refs_ok_mono [OF assms(2)]
  by (auto simp: log_invariant_def log_holds_def)

lemma inv_new_log: "s' REPORTS_CSV = Some (File (csv_row COLUMNS)) \<Longrightarrow> log_invariant s'"
  unfolding log_invariant_def log_holds_def
  by (intro disjI2 exI [of _ "[]"]) simp

lemma inv_append:
  assumes "log_holds s rs" "list_all (image_ref_ok s) rs" "files_kept s s'"
    and "s' REPORTS_CSV = Some (File (file_content s REPORTS_CSV @ csv_row row))"
    and "image_ref_ok s' row"
  shows "log_invariant s'"
  unfolding log_invariant_def
proof (intro disjI2 exI [of _ "rs @ [row]"] conjI)
  show "log_holds s' (rs @ [row])"
    using assms(1,4) by (simp add: log_holds_def file_content_def)
  show "list_all (image_ref_ok s') (rs @ [row])"
    using refs_ok_mono [OF assms(3,2)] assms(5) by simp
qed

lemma initialize_states_cases:
  assumes "s' \<in> set (initialize_states flt s)"
  shows "s' = s \<or> (s UPLOADS_DIR = None \<and> s' = s(UPLOADS_DIR \<mapsto> Dir)) \<or>
         s' = snd (initialize_storage flt s)"
  using assms
  by (auto simp: initialize_states_def os_path_exists_def os_makedirs_def split: if_splits)

lemma initialize_storage_state:
  "snd (initialize_storage flt s) = s \<or>
   (s UPLOADS_DIR = None \<and> snd (initialize_storage flt s) = s(UPLOADS_DIR \<mapsto> Dir)) \<or>
   (s REPORTS_CSV = None \<and>
    snd (initialize_storage flt s) REPORTS_CSV = Some (File (csv_row COLUMNS)))"
  by (auto simp: initialize_storage_cases Let_def UPLOADS_DIR_def REPORTS_CSV_def)

lemma uploads_not_log: "UPLOADS_DIR \<noteq> REPORTS_CSV"
  by (simp add: UPLOADS_DIR_def REPORTS_CSV_def)

lemma inv_makedirs:
  assumes "log_invariant s" "s UPLOADS_DIR = None"
  shows "log_invariant (s(UPLOADS_DIR \<mapsto> Dir))"
  using assms(1)
proof (rule inv_same_log)
  show "files_kept s (s(UPLOADS_DIR \<mapsto> Dir))" using assms(2) by (rule files_kept_dir)
  show "(s(UPLOADS_DIR \<mapsto> Dir)) REPORTS_CSV = s REPORTS_CSV"
    using uploads_not_log by simp
qed

lemma inv_initialize_storage:
  assumes "log_invariant s"
  shows "log_invariant (snd (initialize_storage flt s))"
proof -
  consider "snd (initialize_storage flt s) = s"
    | "s UPLOADS_DIR = None" "snd (initialize_storage flt s) = s(UPLOADS_DIR \<mapsto> Dir)"
    | "snd (initialize_storage flt s) REPORTS_CSV = Some (File (csv_row COLUMNS))"
    using initialize_storage_state [of flt s] by argo
  then show ?thesis
  proof cases
    case 1
    then show ?thesis using assms by simp
  next
    case 2
    show ?thesis unfolding 2(2) using assms 2(1) by (rule inv_makedirs)
  next
    case 3
    then show ?thesis by (rule inv_new_log)
  qed
qed

lemma inv_initialize_states:
  assumes "log_invariant s" "s' \<in> set (initialize_states flt s)"
  shows "log_invariant s'"
proof -
  consider "s' = s" | "s UPLOADS_DIR = None" "s' = s(UPLOADS_DIR \<mapsto> Dir)"
    | "s' = snd (initialize_storage flt s)"
    using initialize_states_cases [OF assms(2)] by argo
  then show ?thesis
  proof cases
    case 1
    then show ?thesis using assms(1) by simp
  next
    case 2
    show ?thesis unfolding 2(2) using assms(1) 2(1) by (rule inv_makedirs)
  next
    case 3
    show ?thesis unfolding 3 using assms(1) by (rule inv_initialize_storage)
  qed
qed

lemma save_image_states_cases:
  assumes "s' \<in> set (save_image_states flt photo (report_id_of now) s)"
  shows "s' = s \<or> (\<exists>x b. s' = s(''uploads/'' @ x \<mapsto> File b))"
proof (cases photo)
  case None
  then show ?thesis using assms by (simp add: save_image_states_def)
next
  case (Some uf)
  let ?x = "report_id_of now @ snd (splitext (name uf))"
  have "s' = s \<or> s' = s(''uploads/'' @ ?x \<mapsto> File []) \<or>
        s' = s(''uploads/'' @ ?x \<mapsto> File (getbuffer uf))"
    using assms Some
    by (auto simp: save_image_states_def Let_def path_join_report_id open_wb_def file_write_def
                   file_content_def split: if_splits)
  then show ?thesis by blast
qed

lemma save_image_snd_cases:
  "snd (save_image flt photo (report_id_of now) s) = s \<or>
   (\<exists>x b. snd (save_image flt photo (report_id_of now) s) = s(''uploads/'' @ x \<mapsto> File b))"
proof (cases photo)
  case None
  then show ?thesis by (simp add: save_image_None)
next
  case (Some uf)
  let ?x = "report_id_of now @ snd (splitext (name uf))"
  have "snd (save_image flt photo (report_id_of now) s) = s \<or>
        snd (save_image flt photo (report_id_of now) s) = s(''uploads/'' @ ?x \<mapsto> File []) \<or>
        snd (save_image flt photo (report_id_of now) s)
          = s(''uploads/'' @ ?x \<mapsto> File (getbuffer uf))"
    using Some by (simp add: save_image_Some Let_def)
  then show ?thesis by blast
qed

lemma inv_image_file:
  assumes "log_invariant s"
  shows "log_invariant (s(''uploads/'' @ x \<mapsto> File b))"
  using assms
proof (rule inv_same_log)
  show "files_kept s (s(''uploads/'' @ x \<mapsto> File b))" by (rule files_kept_file)
  show "(s(''uploads/'' @ x \<mapsto> File b)) REPORTS_CSV = s REPORTS_CSV"
    by (simp add: REPORTS_CSV_def)
qed

lemma inv_save_image_states:
  assumes "log_invariant s" "s' \<in> set (save_image_states flt photo (report_id_of now) s)"
  shows "log_invariant s'"
proof -
  consider "s' = s" | x b where "s' = s(''uploads/'' @ x \<mapsto> File b)"
    using save_image_states_cases [OF assms(2)] by blast
  then show ?thesis
  proof cases
    case 1
    then show ?thesis using assms(1) by simp
  next
    case 2
    show ?thesis unfolding 2 using assms(1) by (rule inv_image_file)
  qed
qed

lemma inv_save_image:
  assumes "log_invariant s"
  shows "log_invariant (snd (save_image flt photo (report_id_of now) s))"
proof -
  consider "snd (save_image flt photo (report_id_of now) s) = s"
    | x b where "snd (save_image flt photo (report_id_of now) s) = s(''uploads/'' @ x \<mapsto> File b)"
    using save_image_snd_cases [of flt photo now s] by blast
  then show ?thesis
  proof cases
    case 1
    then show ?thesis using assms by simp
  next
    case 2
    show ?thesis unfolding 2 using assms by (rule inv_image_file)
  qed
qed

lemma handle_submission_unsuccessful_state:
  assumes "\<not> succeeded (handle_submission flt now form s)"
  shows "state_of (handle_submission flt now form s) = s \<or>
         state_of (handle_submission flt now form s)
           = snd (save_image flt (uploaded_photo form) (report_id_of now) s)"
proof (cases "submitted form \<and> specific_area form \<noteq> [] \<and> description form \<noteq> []")
  case True
  then have v: "submitted form" "specific_area form \<noteq> []" "description form \<noteq> []" by simp_all
  show ?thesis
    using assms
    by (auto simp: handle_submission_valid [OF v] succeeded_def messages_of_def state_of_def
                   save_report_cases split: prod.splits sum.splits if_splits)
next
  case False
  then show ?thesis by (auto simp: handle_submission_def state_of_def)
qed

lemma expected_row_ref_ok:
  "image_ref_ok ((with_image now form s)(REPORTS_CSV \<mapsto> File c)) (expected_row now form)"
proof -
  have l: "length (expected_row now form) = 8" and c: "expected_row now form ! 7 = image_ref now form"
    by (simp_all add: expected_row_def)
  show ?thesis
  proof (cases "uploaded_photo form")
    case None
    then show ?thesis by (simp add: image_ref_ok_def l c image_ref_def)
  next
    case (Some uf)
    have "image_ref now form \<noteq> REPORTS_CSV"
      using Some by (simp add: image_ref_def REPORTS_CSV_def)
    then have "((with_image now form s)(REPORTS_CSV \<mapsto> File c)) (image_ref now form)
            = Some (File (getbuffer uf))"
      using Some by (simp add: with_image_def)
    then show ?thesis by (simp add: image_ref_ok_def l c)
  qed
qed

lemma files_kept_with_image: "files_kept s ((with_image now form s)(REPORTS_CSV \<mapsto> File c))"
  by (cases "uploaded_photo form") (auto simp: files_kept_def with_image_def)

lemma inv_handle_submission:
  assumes "log_invariant s" "s REPORTS_CSV \<noteq> None"
  shows "log_invariant (state_of (handle_submission flt now form s))"
proof (cases "succeeded (handle_submission flt now form s)")
  case True
  obtain rs where rs: "log_holds s rs" "list_all (image_ref_ok s) rs"
    using assms by (auto simp: log_invariant_def)
  have st: "state_of (handle_submission flt now form s) =
              (with_image now form s)(REPORTS_CSV \<mapsto>
                 File (file_content s REPORTS_CSV @ csv_row (expected_row now form)))"
    using handle_submission_success [OF True] by (simp add: state_of_def)
  show ?thesis
    unfolding st
    using rs
  proof (rule inv_append)
    show "files_kept s ((with_image now form s)(REPORTS_CSV \<mapsto>
                 File (file_content s REPORTS_CSV @ csv_row (expected_row now form))))"
      by (rule files_kept_with_image)
    show "image_ref_ok ((with_image now form s)(REPORTS_CSV \<mapsto>
                 File (file_content s REPORTS_CSV @ csv_row (expected_row now form))))
            (expected_row now form)"
      by (rule expected_row_ref_ok)
  qed simp
next
  case False
  then show ?thesis
    using handle_submission_unsuccessful_state [OF False] assms(1)
      inv_save_image [OF assms(1), of flt "uploaded_photo form" now]
    by auto
qed

lemma initialize_storage_log_exists:
  "fst (initialize_storage flt s) = Inr () \<Longrightarrow> snd (initialize_storage flt s) REPORTS_CSV \<noteq> None"
  by (auto simp: initialize_storage_cases Let_def UPLOADS_DIR_def REPORTS_CSV_def split: if_splits)

lemma inv_main_states:
  assumes "log_invariant s" "s' \<in> set (main_states flt now form s)"
  shows "log_invariant s'"
proof -
  let ?s1 = "snd (initialize_storage flt s)"
  have i1: "log_invariant ?s1" using assms(1) by (rule inv_initialize_storage)
  consider "s' = s" | "s' \<in> set (initialize_states flt s)"
    | "fst (initialize_storage flt s) = Inr ()"
      "s' \<in> set (save_image_states flt (uploaded_photo form) (report_id_of now) ?s1)"
    | "fst (initialize_storage flt s) = Inr ()"
      "s' = state_of (handle_submission flt now form ?s1)"
    using assms(2)
    by (cases "initialize_storage flt s")
       (auto simp: main_states_def split: sum.splits if_splits)
  then show ?thesis
  proof cases
    case 1
    then show ?thesis using assms(1) by simp
  next
    case 2
    then show ?thesis using assms(1) inv_initialize_states by blast
  next
    case 3
    then show ?thesis using i1 inv_save_image_states by blast
  next
    case 4
    then show ?thesis
      using i1 initialize_storage_log_exists [of flt s] inv_handle_submission by simp
  qed
qed

lemma reachable_invariant: "reachable s \<Longrightarrow> log_invariant s"
proof (induction rule: reachable.induct)
  case (fresh s)
  then show ?case by (simp add: log_invariant_def)
next
  case (run s s' flt now form)
  then show ?case using inv_main_states by blast
qed

lemma initialize_states_last:
  "initialize_states flt s \<noteq> [] \<and>
   last (initialize_states flt s) = snd (initialize_storage flt s)"
  by (auto simp: initialize_states_def initialize_storage_def split: prod.splits sum.splits)

lemma main_final_state: "state_of (main flt now form s) = last (main_states flt now form s)"
proof (cases "initialize_storage flt s")
  case (Pair r s1)
  note l = initialize_states_last [of flt s]
  show ?thesis
  proof (cases r)
    case (Inl e)
    then show ?thesis using Pair l by (simp add: main_unfold main_states_def state_of_def)
  next
    case (Inr u)
    show ?thesis
    proof (cases "submitted form \<and> \<not> (description form = [] \<or> specific_area form = [])")
      case True
      then show ?thesis using Pair Inr by (simp add: main_unfold main_states_def state_of_def)
    next
      case False
      then have "handle_submission flt now form s1 = (Inr (), [], s1) \<or>
                 handle_submission flt now form s1 = (Inr (), [StError VALIDATION_MESSAGE], s1)"
        by (auto simp: handle_submission_def)
      then show ?thesis
        using Pair Inr l False by (auto simp: main_unfold main_states_def state_of_def)
    qed
  qed
qed

lemma main_final_state_reachable:
  "reachable s \<Longrightarrow> reachable (state_of (main flt now form s))"
proof -
  assume r: "reachable s"
  have "main_states flt now form s \<noteq> []" by (simp add: main_states_def)
  then have "state_of (main flt now form s) \<in> set (main_states flt now form s)"
    unfolding main_final_state by (rule last_in_set)
  with r show ?thesis by (rule reachable.run)
qed

lemma image_written_before_append:
  assumes "succeeded (handle_submission flt now form s)" "uploaded_photo form = Some uf"
  shows "with_image now form s \<in> set (save_image_states flt (uploaded_photo form) (report_id_of now) s)"
proof -
  let ?b = "report_id_of now @ snd (splitext (name uf))"
  let ?p = "''uploads/'' @ ?b"
  have "fst (save_image flt (Some uf) (report_id_of now) s) = Inr (Some (image_ref now form))"
    using handle_submission_success [OF assms(1)] assms(2) by simp
  then have ok: "CHR 0x00 \<notin> set (snd (splitext (name uf))) \<and> \<not> open_fails flt \<and>
                 \<not> NAME_MAX < length ?b \<and> s UPLOADS_DIR = Some Dir \<and> s ?p \<noteq> Some Dir \<and>
                 \<not> write_fails flt"
    by (auto simp: save_image_Some Let_def split: if_splits)
  have sep: "CHR ''/'' \<notin> set ?b"
    by (simp add: report_id_no_sep splitext_no_sep)
  have "parent_ok s ?p = (s UPLOADS_DIR = Some Dir)" using sep by (rule parent_ok_uploads)
  then have par: "parent_ok s ?p" using ok by blast
  have "name_too_long ?p = (NAME_MAX < length ?b)" using sep by (rule name_too_long_uploads)
  then have long: "\<not> name_too_long ?p" using ok by blast
  have nul: "CHR 0x00 \<notin> set ?p" using ok by (simp add: report_id_no_nul)
  have "open_wb flt ?p s = (Inr (), s(?p \<mapsto> File []))"
    using ok par long nul by (simp add: open_wb_def)
  then have "save_image_states flt (Some uf) (report_id_of now) s
          = [s(?p \<mapsto> File []), s(?p \<mapsto> File (getbuffer uf))]"
    using ok
    by (simp add: save_image_states_def Let_def path_join_report_id file_write_def
                  file_content_def)
  then show ?thesis using assms(2) by (simp add: with_image_def image_ref_def)
qed

lemma main_aborts_on_image_failure:
  assumes "fst (initialize_storage flt s) = Inr ()"
    and "submitted form" "specific_area form \<noteq> []" "description form \<noteq> []"
    and "fst (save_image flt (uploaded_photo form) (report_id_of now)
                (snd (initialize_storage flt s))) = Inl e"
  shows "result_of (main flt now form s) = Inl e \<and> \<not> succeeded (main flt now form s) \<and>
         state_of (main flt now form s) REPORTS_CSV = snd (initialize_storage flt s) REPORTS_CSV"
proof -
  let ?s1 = "snd (initialize_storage flt s)"
  obtain s2 where si: "save_image flt (uploaded_photo form) (report_id_of now) ?s1 = (Inl e, s2)"
    using assms(5) by (cases "save_image flt (uploaded_photo form) (report_id_of now) ?s1") auto
  have hs: "handle_submission flt now form ?s1 = (Inl e, [], s2)"
    by (simp add: handle_submission_valid [OF assms(2-4)] si)
  have "s2 REPORTS_CSV = ?s1 REPORTS_CSV"
    using save_image_keeps_log [of flt "uploaded_photo form" now ?s1] si by simp
  then show ?thesis
    using assms(1) hs
    by (cases "initialize_storage flt s")
       (auto simp: main_unfold result_of_def state_of_def succeeded_def messages_of_def
                   logo_messages_def)
qed

text \<open>
  C6. In every reachable state there is no log yet, or the log is the header and the
  rows that the program appended, and each of these rows has eight columns of which the
  last, \<open>ImagePath\<close>, is \<open>N/A\<close> or the path of a file that exists; this holds in each
  state a run of \<open>main\<close> passes through, which are, in order, the states of storage
  initialisation, of the image being opened and written, and of the append. In a
  successful run with a photo, the state before the append already holds the image,
  with the log as storage initialisation left it. If saving the image fails, the run
  ends with that exception, is not a success, and the log is the one storage
  initialisation left.
\<close>

theorem log_never_references_missing_image:
  assumes "reachable s"
  shows "log_invariant s \<and>
         (\<forall>s' \<in> set (main_states flt now form s). log_invariant s') \<and>
         log_invariant (state_of (main flt now form s)) \<and>
         (succeeded (main flt now form s) \<and> uploaded_photo form = Some uf \<longrightarrow>
            (\<exists>mid \<in> set (main_states flt now form s).
               mid (image_ref now form) = Some (File (getbuffer uf)) \<and>
               mid REPORTS_CSV = snd (initialize_storage flt s) REPORTS_CSV)) \<and>
         (fst (initialize_storage flt s) = Inr () \<and> submitted form \<and>
          specific_area form \<noteq> [] \<and> description form \<noteq> [] \<and>
          fst (save_image flt (uploaded_photo form) (report_id_of now)
                 (snd (initialize_storage flt s))) = Inl e \<longrightarrow>
            result_of (main flt now form s) = Inl e \<and> \<not> succeeded (main flt now form s) \<and>
            state_of (main flt now form s) REPORTS_CSV
              = snd (initialize_storage flt s) REPORTS_CSV)"
proof (intro conjI ballI impI)
  show "log_invariant s" using assms by (rule reachable_invariant)
  show "log_invariant s'" if "s' \<in> set (main_states flt now form s)" for s'
    using assms that reachable.run reachable_invariant by blast
  show "log_invariant (state_of (main flt now form s))"
    using assms main_final_state_reachable reachable_invariant by blast
  show "\<exists>mid \<in> set (main_states flt now form s).
               mid (image_ref now form) = Some (File (getbuffer uf)) \<and>
               mid REPORTS_CSV = snd (initialize_storage flt s) REPORTS_CSV"
    if h: "succeeded (main flt now form s) \<and> uploaded_photo form = Some uf"
  proof -
    let ?s1 = "snd (initialize_storage flt s)"
    note m = main_succeeded [of flt now form s]
    have ok: "fst (initialize_storage flt s) = Inr ()"
      and hs: "succeeded (handle_submission flt now form ?s1)"
      using h m by simp_all
    note v = handle_submission_success [OF hs]
    have "with_image now form ?s1
            \<in> set (save_image_states flt (uploaded_photo form) (report_id_of now) ?s1)"
      using hs h by (intro image_written_before_append) simp_all
    then have "with_image now form ?s1 \<in> set (main_states flt now form s)"
      using ok v by (cases "initialize_storage flt s") (auto simp: main_states_def)
    moreover have "with_image now form ?s1 (image_ref now form) = Some (File (getbuffer uf))"
      using h by (simp add: with_image_def)
    moreover have "with_image now form ?s1 REPORTS_CSV = ?s1 REPORTS_CSV"
      by (rule with_image_log)
    ultimately show ?thesis by blast
  qed
  assume a: "fst (initialize_storage flt s) = Inr () \<and> submitted form \<and>
          specific_area form \<noteq> [] \<and> description form \<noteq> [] \<and>
          fst (save_image flt (uploaded_photo form) (report_id_of now)
                 (snd (initialize_storage flt s))) = Inl e"
  then have "result_of (main flt now form s) = Inl e \<and> \<not> succeeded (main flt now form s) \<and>
         state_of (main flt now form s) REPORTS_CSV = snd (initialize_storage flt s) REPORTS_CSV"
    by (intro main_aborts_on_image_failure) simp_all
  then show "result_of (main flt now form s) = Inl e"
    and "\<not> succeeded (main flt now form s)"
    and "state_of (main flt now form s) REPORTS_CSV = snd (initialize_storage flt s) REPORTS_CSV"
    by simp_all
qed

lemma photo_run_succeeds: "succeeded (main no_faults example_time photo_form Map.empty)"
  by (rule main_succeeds)
     (simp_all add: photo_form_def splitext_spill report_id_example NAME_MAX_def)

lemma after_photo_paths:
  "after_photo UPLOADS_DIR = Some Dir \<and> after_photo REPORTS_CSV \<noteq> None"
  unfolding after_photo_def main_success_state [OF photo_run_succeeds]
  by (simp add: with_image_def image_ref_def photo_form_def initialize_storage_cases
                no_faults_def UPLOADS_DIR_def REPORTS_CSV_def Let_def)

theorem log_never_references_missing_image_witness:
  "reachable Map.empty \<and>
   succeeded (main no_faults example_time photo_form Map.empty) \<and>
   uploaded_photo photo_form = Some \<lparr>name = ''spill.png'', getbuffer = ''abc''\<rparr> \<and>
   (\<exists>mid \<in> set (main_states no_faults example_time photo_form Map.empty).
      mid (image_ref example_time photo_form) = Some (File ''abc'') \<and>
      mid REPORTS_CSV = snd (initialize_storage no_faults Map.empty) REPORTS_CSV) \<and>
   reachable after_photo \<and> log_invariant after_photo \<and>
   fst (initialize_storage open_fault after_photo) = Inr () \<and> submitted photo_form \<and>
   specific_area photo_form \<noteq> [] \<and> description photo_form \<noteq> [] \<and>
   fst (save_image open_fault (uploaded_photo photo_form) (report_id_of later_time)
          (snd (initialize_storage open_fault after_photo))) = Inl OSError \<and>
   result_of (main open_fault later_time photo_form after_photo) = Inl OSError \<and>
   \<not> succeeded (main open_fault later_time photo_form after_photo) \<and>
   state_of (main open_fault later_time photo_form after_photo) REPORTS_CSV
     = snd (initialize_storage open_fault after_photo) REPORTS_CSV"
proof -
  have r0: "reachable Map.empty" by (rule reachable.fresh) simp
  have p: "uploaded_photo photo_form = Some \<lparr>name = ''spill.png'', getbuffer = ''abc''\<rparr>"
    by (simp add: photo_form_def)
  have r1: "reachable after_photo"
    unfolding after_photo_def using r0 by (rule main_final_state_reachable)
  have i: "fst (initialize_storage open_fault after_photo) = Inr ()"
    using after_photo_paths by (simp add: initialize_storage_cases Let_def)
  have v: "submitted photo_form \<and> specific_area photo_form \<noteq> [] \<and> description photo_form \<noteq> []"
    by (simp add: photo_form_def)
  have f: "fst (save_image open_fault (uploaded_photo photo_form) (report_id_of later_time)
          (snd (initialize_storage open_fault after_photo))) = Inl OSError"
    unfolding p
    by (simp add: save_image_Some Let_def open_fault_def no_faults_def splitext_spill)
  note t0 = log_never_references_missing_image [OF r0, of no_faults example_time photo_form
              "\<lparr>name = ''spill.png'', getbuffer = ''abc''\<rparr>"]
  note t1 = log_never_references_missing_image [OF r1, of open_fault later_time photo_form _ OSError]
  have a: "\<exists>mid \<in> set (main_states no_faults example_time photo_form Map.empty).
      mid (image_ref example_time photo_form) = Some (File ''abc'') \<and>
      mid REPORTS_CSV = snd (initialize_storage no_faults Map.empty) REPORTS_CSV"
    using t0 photo_run_succeeds p by simp
  have b: "log_invariant after_photo" using t1 by (rule conjunct1)
  have c: "result_of (main open_fault later_time photo_form after_photo) = Inl OSError \<and>
   \<not> succeeded (main open_fault later_time photo_form after_photo) \<and>
   state_of (main open_fault later_time photo_form after_photo) REPORTS_CSV
     = snd (initialize_storage open_fault after_photo) REPORTS_CSV"
    using t1 i v f by blast
  show ?thesis using r0 photo_run_succeeds p a r1 b i v f c by blast
qed

end
